theory Spec2Isabelle
  imports
    Main
    "HOL-Library.Char_ord"
    "HOL-Library.List_Lexorder"
    "HOL-Library.Multiset"
begin

section \<open>Release validation of RS IDs: the model\<close>

text \<open>
  The theory embeds \<^verbatim>\<open>run_release_in_embassy/validate_rs_release_files.py\<close>.
  A text file is the list of its lines, each without its newline; a compressed input is
  the list of the lines \<^verbatim>\<open>zcat\<close> prints. Lines are ASCII strings and are
  ordered as in the C locale (bytewise), which is how \<^verbatim>\<open>sort\<close>,
  \<^verbatim>\<open>uniq\<close> and \<^verbatim>\<open>comm\<close> agree on them.
  Shell commands and the store answer every call: the failures of the network, of the file
  system and of a missing program are outside the model, the exceptions Python itself
  raises in the code are inside.
\<close>

subsection \<open>Shell tools\<close>

text \<open>\<^verbatim>\<open>grep -v ^#\<close>: a line is kept unless it starts with \<open>#\<close>.\<close>

definition starts_with_hash :: "string \<Rightarrow> bool" where
  "starts_with_hash l = (case l of [] \<Rightarrow> False | c # _ \<Rightarrow> c = CHR ''#'')"

definition grep_v_hash :: "string list \<Rightarrow> string list" where
  "grep_v_hash ls = filter (\<lambda>l. \<not> starts_with_hash l) ls"

text \<open>The fields of a line, split at every delimiter; an empty line has one empty field.\<close>

fun split_on :: "char \<Rightarrow> string \<Rightarrow> string list" where
  "split_on d [] = [[]]"
| "split_on d (c # cs) =
     (if c = d then [] # split_on d cs
      else (case split_on d cs of [] \<Rightarrow> [[c]] | f # fs \<Rightarrow> (c # f) # fs))"

text \<open>
  \<^verbatim>\<open>cut -fN\<close> on one line, fields counted from 1 and delimited by tabs: a line with
  no tab is printed whole, a line with fewer than N fields gives the empty line.
\<close>

definition cut_f :: "nat \<Rightarrow> string \<Rightarrow> string" where
  "cut_f n l =
     (if CHR 0x09 \<notin> set l then l
      else (let fs = split_on (CHR 0x09) l in if n \<le> length fs then fs ! (n - 1) else []))"

text \<open>\<^verbatim>\<open>sed s/rs//g\<close> on one line: every occurrence of \<open>rs\<close>, found left to
  right without overlap, is removed; the result is not scanned again.\<close>

fun sed_rs :: "string \<Rightarrow> string" where
  "sed_rs (c # d # cs) =
     (if c = CHR ''r'' \<and> d = CHR ''s'' then sed_rs cs else c # sed_rs (d # cs))"
| "sed_rs cs = cs"

text \<open>\<^verbatim>\<open>sort f | uniq\<close> and \<^verbatim>\<open>sort -u\<close>: the sorted lines, one of each.\<close>

definition sort_uniq :: "string list \<Rightarrow> string list" where
  "sort_uniq ls = remdups_adj (sort ls)"

text \<open>\<^verbatim>\<open>grep -E "^[0-9]+$"\<close>: the line is one or more decimal digits.\<close>

definition grep_digits :: "string \<Rightarrow> bool" where
  "grep_digits l = (l \<noteq> [] \<and> list_all (\<lambda>c. c \<in> set ''0123456789'') l)"

text \<open>
  \<^verbatim>\<open>comm -31 FILE1 FILE2\<close> merges two sorted files and prints column 2 only: the
  lines that are in FILE2 and not in FILE1 (column 1, the lines only in FILE1, and column
  3, the common lines, are suppressed).
\<close>

fun comm_31 :: "string list \<Rightarrow> string list \<Rightarrow> string list" where
  "comm_31 [] ys = ys"
| "comm_31 (x # xs) [] = []"
| "comm_31 (x # xs) (y # ys) =
     (if x = y then comm_31 xs ys
      else if x < y then comm_31 xs (y # ys)
      else y # comm_31 (x # xs) ys)"

subsection \<open>Python values\<close>

datatype error =
    ValueError
  | KeyError
  | IndexError
  | TypeError
  | UnboundLocalError
  | ConnectionFailure
  | Exception_still_missing nat

text \<open>
  \<open>Exception_still_missing n\<close> is the exception of \<^verbatim>\<open>get_missing_ids_attributions\<close>,
  whose message is \<^verbatim>\<open>There are still n missing IDs. See F.\<close> with \<^verbatim>\<open>F\<close> the
  path of the residual file. \<open>ConnectionFailure\<close> stands for whatever
  \<^verbatim>\<open>open_mongo_port_to_tempmongo\<close> raises.
\<close>

text \<open>\<^verbatim>\<open>str(n)\<close> of an integer.\<close>

fun str_nat :: "nat \<Rightarrow> string" where
  "str_nat n =
     (if n < 10 then [''0123456789'' ! n]
      else str_nat (n div 10) @ [''0123456789'' ! (n mod 10)])"

declare str_nat.simps [simp del]

definition py_str :: "int \<Rightarrow> string" where
  "py_str i = (if i < 0 then CHR ''-'' # str_nat (nat (- i)) else str_nat (nat i))"

text \<open>\<^verbatim>\<open>s.strip()\<close>: ASCII white space is removed at both ends.\<close>

definition py_isspace :: "char \<Rightarrow> bool" where
  "py_isspace c =
     (c \<in> set [CHR 0x09, CHR 0x0A, CHR 0x0B, CHR 0x0C, CHR 0x0D,
               CHR 0x1C, CHR 0x1D, CHR 0x1E, CHR 0x1F, CHR 0x20])"

definition strip :: "string \<Rightarrow> string" where
  "strip s = rev (dropWhile py_isspace (rev (dropWhile py_isspace s)))"

text \<open>
  \<^verbatim>\<open>int(s)\<close> in base 10: an optional sign, then groups of digits joined by single
  underscores; anything else is a \<^verbatim>\<open>ValueError\<close>. (The limit CPython 3.11 puts on
  the number of digits is not modelled: an accession has fewer than 20.)
\<close>

definition digit_value :: "char \<Rightarrow> nat" where
  "digit_value c = of_char c - 48"

definition digits_value :: "string \<Rightarrow> nat" where
  "digits_value ds = foldl (\<lambda>v c. 10 * v + digit_value c) 0 ds"

definition unsigned_int :: "string \<Rightarrow> nat option" where
  "unsigned_int s =
     (let groups = split_on CHR ''_'' s in
      if list_all grep_digits groups then Some (digits_value (concat groups)) else None)"

definition py_int :: "string \<Rightarrow> error + int" where
  "py_int s =
     (let t = strip s;
          (negative, body) =
            (case t of [] \<Rightarrow> (False, [])
             | c # cs \<Rightarrow> if c = CHR ''-'' then (True, cs)
                         else if c = CHR ''+'' then (False, cs) else (False, c # cs))
      in case unsigned_int body of
           None \<Rightarrow> Inl ValueError
         | Some v \<Rightarrow> Inr (if negative then - int v else int v))"

text \<open>A list comprehension whose element expression may raise: the first exception wins.\<close>

fun all_or_first_error :: "(error + 'a) list \<Rightarrow> error + 'a list" where
  "all_or_first_error [] = Inr []"
| "all_or_first_error (r # rs) =
     (case r of Inl e \<Rightarrow> Inl e
      | Inr x \<Rightarrow> (case all_or_first_error rs of Inl e \<Rightarrow> Inl e | Inr xs \<Rightarrow> Inr (x # xs)))"

text \<open>\<^verbatim>\<open>needle in haystack\<close> on strings.\<close>

fun contains :: "string \<Rightarrow> string \<Rightarrow> bool" where
  "contains needle [] = (needle = [])"
| "contains needle (c # cs) = (take (length needle) (c # cs) = needle \<or> contains needle cs)"

subsection \<open>The store\<close>

text \<open>
  The documents of the collections the validation reads, with the fields its queries
  look at. An operation document records an event on a variant together with the
  \<open>inactiveObjects\<close> the event retired; each of these may carry the RS ID it was
  clustered under.
\<close>

record inactive_object =
  io_rs :: "int option"
  io_ref :: string
  io_alt :: string

datatype document =
    SubmittedVariantEntity int "int option" string string
  | OperationEntity int string string "inactive_object list"
  | ClusteredVariantEntity int string

text \<open>
  \<open>SubmittedVariantEntity accession rs ref alt\<close>,
  \<open>OperationEntity accession eventType reason inactiveObjects\<close> and
  \<open>ClusteredVariantEntity accession type\<close>. A database maps the name of a collection to
  its documents.
\<close>

type_synonym database = "string \<Rightarrow> document list"

definition sve_collection_name :: string where
  "sve_collection_name = ''submittedVariantEntity''"

definition svoe_collection_name :: string where
  "svoe_collection_name = ''submittedVariantOperationEntity''"

definition dbsnp_sve_collection_name :: string where
  "dbsnp_sve_collection_name = ''dbsnpSubmittedVariantEntity''"

definition dbsnp_svoe_collection_name :: string where
  "dbsnp_svoe_collection_name = ''dbsnpSubmittedVariantOperationEntity''"

definition cve_collection_name :: string where
  "cve_collection_name = ''clusteredVariantEntity''"

definition dbsnp_cve_collection_name :: string where
  "dbsnp_cve_collection_name = ''dbsnpClusteredVariantEntity''"

text \<open>The value a query finds in a document under a path: an integer or an array of them.\<close>

datatype bson = BInt int | BArray "int list"

fun value_at :: "string \<Rightarrow> document \<Rightarrow> bson option" where
  "value_at path (SubmittedVariantEntity acc rs_id rf al) =
     (if path = ''accession'' then Some (BInt acc)
      else if path = ''rs'' then map_option BInt rs_id
      else None)"
| "value_at path (OperationEntity acc event_type rsn ios) =
     (if path = ''accession'' then Some (BInt acc)
      else if path = ''inactiveObjects.rs'' then Some (BArray (List.map_filter io_rs ios))
      else None)"
| "value_at path (ClusteredVariantEntity acc tp) =
     (if path = ''accession'' then Some (BInt acc) else None)"

text \<open>
  The regular expressions of the queries. \<^verbatim>\<open>^[acgtnACGTN]+$\<close> finds a match in a
  string of one or more of these letters, with or without one final newline (where
  \<^verbatim>\<open>$\<close> also matches); \<^verbatim>\<open>^Declustered.*\<close> finds one in a string that starts
  with \<open>Declustered\<close>.
\<close>

definition nucleotide_letters :: "string \<Rightarrow> bool" where
  "nucleotide_letters s =
     (let body = (if s \<noteq> [] \<and> last s = CHR 0x0A then butlast s else s)
      in body \<noteq> [] \<and> list_all (\<lambda>c. c \<in> set ''acgtnACGTN'') body)"

definition declustered_reason :: "string \<Rightarrow> bool" where
  "declustered_reason s = (take 11 s = ''Declustered'')"

text \<open>
  An aggregation pipeline of the source: \<^verbatim>\<open>$match\<close> on an \<^verbatim>\<open>$in\<close> list under
  the path of the RS ID and on further conditions, then the projection of that same path
  as \<open>accession\<close>, then the distinct projected values (\<^verbatim>\<open>$group\<close> with
  \<^verbatim>\<open>$addToSet\<close>, \<^verbatim>\<open>$unwind\<close>, \<^verbatim>\<open>$project\<close>). In each of the five
  pipelines the path under \<^verbatim>\<open>$in\<close> and the projected path are the same.
\<close>

record aggregate_query =
  id_path :: string
  in_list :: "int list"
  other_conditions :: "document \<Rightarrow> bool"

definition get_merged_ss_query :: aggregate_query where
  "get_merged_ss_query =
     \<lparr> id_path = ''inactiveObjects.rs'', in_list = [],
       other_conditions =
         (\<lambda>d. case d of OperationEntity acc event_type rsn ios \<Rightarrow> event_type = ''MERGED''
               | _ \<Rightarrow> False) \<rparr>"

definition get_declustered_ss_query :: aggregate_query where
  "get_declustered_ss_query =
     \<lparr> id_path = ''inactiveObjects.rs'', in_list = [],
       other_conditions =
         (\<lambda>d. case d of OperationEntity acc event_type rsn ios \<Rightarrow>
                 event_type = ''UPDATED'' \<and> declustered_reason rsn
               | _ \<Rightarrow> False) \<rparr>"

definition get_tandem_repeat_rs_query :: aggregate_query where
  "get_tandem_repeat_rs_query =
     \<lparr> id_path = ''accession'', in_list = [],
       other_conditions =
         (\<lambda>d. case d of ClusteredVariantEntity acc tp \<Rightarrow> tp = ''TANDEM_REPEAT''
               | _ \<Rightarrow> False) \<rparr>"

text \<open>\<^verbatim>\<open>$not\<close> of a regular expression also holds of a document without the field,
  and, on an array, when no element matches.\<close>

definition get_rs_with_non_nucleotide_letters_query_SVE :: aggregate_query where
  "get_rs_with_non_nucleotide_letters_query_SVE =
     \<lparr> id_path = ''rs'', in_list = [],
       other_conditions =
         (\<lambda>d. case d of SubmittedVariantEntity acc rs_id rf al \<Rightarrow>
                 \<not> nucleotide_letters rf \<or> \<not> nucleotide_letters al
               | _ \<Rightarrow> True) \<rparr>"

definition get_rs_with_non_nucleotide_letters_query_SVOE :: aggregate_query where
  "get_rs_with_non_nucleotide_letters_query_SVOE =
     \<lparr> id_path = ''inactiveObjects.rs'', in_list = [],
       other_conditions =
         (\<lambda>d. case d of OperationEntity acc event_type rsn ios \<Rightarrow>
                 \<not> list_ex (\<lambda>io. nucleotide_letters (io_ref io)) ios
                 \<or> \<not> list_ex (\<lambda>io. nucleotide_letters (io_alt io)) ios
               | _ \<Rightarrow> True) \<rparr>"

text \<open>\<^verbatim>\<open>$in\<close>: an integer is in the list, an array has an element in the list.\<close>

definition in_match :: "int list \<Rightarrow> bson option \<Rightarrow> bool" where
  "in_match ids v =
     (case v of None \<Rightarrow> False
      | Some (BInt i) \<Rightarrow> i \<in> set ids
      | Some (BArray is) \<Rightarrow> list_ex (\<lambda>i. i \<in> set ids) is)"

definition matches :: "aggregate_query \<Rightarrow> document \<Rightarrow> bool" where
  "matches q d = (other_conditions q d \<and> in_match (in_list q) (value_at (id_path q) d))"

text \<open>\<^verbatim>\<open>collection_handle.aggregate(pipeline=q)\<close>: the \<open>accession\<close> of every result
  document. The order of the results is the store's choice; here it follows the
  documents.\<close>

definition aggregate :: "document list \<Rightarrow> aggregate_query \<Rightarrow> bson list" where
  "aggregate collection q =
     remdups (List.map_filter (\<lambda>d. if matches q d then value_at (id_path q) d else None)
                collection)"

text \<open>\<^verbatim>\<open>mongoexport --fields accession --type csv --noHeaderLine\<close> of a collection.\<close>

fun accession :: "document \<Rightarrow> int" where
  "accession (SubmittedVariantEntity acc rs_id rf al) = acc"
| "accession (OperationEntity acc event_type rsn ios) = acc"
| "accession (ClusteredVariantEntity acc tp) = acc"

definition mongoexport_accession :: "document list \<Rightarrow> string list" where
  "mongoexport_accession collection = map (\<lambda>d. py_str (accession d)) collection"

subsection \<open>The files of a run\<close>

text \<open>
  The release files of the assembly (what \<^verbatim>\<open>zcat\<close> prints of each) and the files
  the validation writes, each under the name of the variable that holds its path in the
  source. The two result files of the non-nucleotide category carry the suffixes
  \<open>_SVE\<close> and \<open>_SVOE\<close>; the file without suffix is their merge.
\<close>

record files =
  active_rs_ids_file :: "string list"
  merged_rs_ids_file :: "string list"
  multimap_rs_ids_file :: "string list"
  merged_deprecated_rs_ids_file :: "string list"
  deprecated_rs_ids_file :: "string list"
  all_ids_file :: "string list"
  unique_ids_file :: "string list"
  mongo_unique_rs_ids_file :: "string list"
  missing_ids_file :: "string list"
  rs_still_missing_file :: "string list"
  rs_with_merged_ss_file :: "string list"
  rs_with_declustered_ss_file :: "string list"
  rs_with_tandem_repeats_file :: "string list"
  results_from_sve_file :: "string list"
  results_from_svoe_file :: "string list"
  rs_with_non_nucleotide_letters_file :: "string list"

subsection \<open>Building the two universes and their difference\<close>

text \<open>\<^verbatim>\<open>read_next_batch_of_missing_ids\<close>: the handle yields lists of up to 1000 lines
  until it yields the empty list. The handle is the list of the lines not yet read.\<close>

definition num_lines_to_read :: nat where
  "num_lines_to_read = 1000"

function read_next_batch_of_missing_ids :: "string list \<Rightarrow> string list list" where
  "read_next_batch_of_missing_ids missing_ids_file_handle =
     (if take num_lines_to_read missing_ids_file_handle = [] then []
      else take num_lines_to_read missing_ids_file_handle
           # read_next_batch_of_missing_ids (drop num_lines_to_read missing_ids_file_handle))"
  by pat_completeness auto
termination
  by (relation "measure length") (auto simp: num_lines_to_read_def)

declare read_next_batch_of_missing_ids.simps [simp del]

text \<open>\<^verbatim>\<open>generate_unique_rs_ids_file\<close>: both files are removed, six commands append
  to the file of all IDs, and the last one appends its sorted, duplicate-free lines to the
  file of unique IDs.\<close>

definition generate_unique_rs_ids_file :: "files \<Rightarrow> files" where
  "generate_unique_rs_ids_file fs =
     (let fs0 = fs\<lparr>all_ids_file := [], unique_ids_file := []\<rparr>;
          fs1 = fs0\<lparr>all_ids_file := all_ids_file fs0
                  @ map (\<lambda>l. sed_rs (cut_f 3 l)) (grep_v_hash (active_rs_ids_file fs0))\<rparr>;
          fs2 = fs1\<lparr>all_ids_file := all_ids_file fs1
                  @ map (\<lambda>l. sed_rs (cut_f 3 l)) (grep_v_hash (merged_rs_ids_file fs1))\<rparr>;
          fs3 = fs2\<lparr>all_ids_file := all_ids_file fs2
                  @ map (\<lambda>l. sed_rs (cut_f 3 l)) (grep_v_hash (multimap_rs_ids_file fs2))\<rparr>;
          fs4 = fs3\<lparr>all_ids_file := all_ids_file fs3
                  @ map (\<lambda>l. sed_rs (cut_f 1 l)) (merged_deprecated_rs_ids_file fs3)\<rparr>;
          fs5 = fs4\<lparr>all_ids_file := all_ids_file fs4
                  @ map (\<lambda>l. sed_rs (cut_f 2 l)) (merged_deprecated_rs_ids_file fs4)\<rparr>;
          fs6 = fs5\<lparr>all_ids_file := all_ids_file fs5
                  @ map sed_rs (deprecated_rs_ids_file fs5)\<rparr>
      in fs6\<lparr>unique_ids_file := unique_ids_file fs6 @ sort_uniq (all_ids_file fs6)\<rparr>)"

text \<open>\<^verbatim>\<open>diff_release_ids_against_mongo_rs_ids\<close>: the content it writes to the file of
  missing IDs, from the content of the two files it is given.\<close>

definition diff_release_ids_against_mongo_rs_ids ::
  "string list \<Rightarrow> string list \<Rightarrow> string list" where
  "diff_release_ids_against_mongo_rs_ids unique_release_ids_file unique_mongo_ids_file =
     filter grep_digits (comm_31 unique_release_ids_file unique_mongo_ids_file)"

text \<open>\<^verbatim>\<open>export_unique_rs_ids_from_mongo\<close>: every export writes to the same
  \<^verbatim>\<open>--out\<close> file, then the file is sorted without duplicates in place.\<close>

definition export_unique_rs_ids_from_mongo :: "database \<Rightarrow> files \<Rightarrow> files" where
  "export_unique_rs_ids_from_mongo db fs =
     (let exported =
            fold (\<lambda>collection f. f\<lparr>mongo_unique_rs_ids_file := mongoexport_accession (db collection)\<rparr>)
              [''clusteredVariantEntity'', ''clusteredVariantOperationEntity'',
               ''dbsnpClusteredVariantEntity'', ''dbsnpClusteredVariantOperationEntity'']
              fs
      in exported\<lparr>mongo_unique_rs_ids_file := sort_uniq (mongo_unique_rs_ids_file exported)\<rparr>)"

subsection \<open>One attribution category\<close>

text \<open>\<^verbatim>\<open>str(v)\<close> of a projected value; a list prints as \<^verbatim>\<open>[1, 2]\<close>.\<close>

fun join_comma :: "string list \<Rightarrow> string" where
  "join_comma [] = []"
| "join_comma [s] = s"
| "join_comma (s # t # ss) = s @ '', '' @ join_comma (t # ss)"

fun py_str_value :: "bson \<Rightarrow> string" where
  "py_str_value (BInt i) = py_str i"
| "py_str_value (BArray is) = ''['' @ join_comma (map py_str is) @ '']''"

text \<open>\<^verbatim>\<open>elem["accession"][0]\<close>.\<close>

fun first_of :: "bson \<Rightarrow> error + int" where
  "first_of (BInt i) = Inl TypeError"
| "first_of (BArray []) = Inl IndexError"
| "first_of (BArray (i # is)) = Inr i"

text \<open>The lines written for one collection and one batch (each line without its newline).\<close>

definition lines_to_write :: "string \<Rightarrow> bson list \<Rightarrow> error + string list" where
  "lines_to_write rs_id_attribute_path elems =
     (if contains ''inactiveObjects'' rs_id_attribute_path
      then all_or_first_error (map (\<lambda>elem. map_sum id py_str (first_of elem)) elems)
      else Inr (map py_str_value elems))"

text \<open>
  The body of the loop over the batches: the lines of the batch are parsed
  (\<^verbatim>\<open>int(line.strip())\<close>), stored under \<^verbatim>\<open>$in\<close> at the path of the RS ID (a
  \<^verbatim>\<open>KeyError\<close> if the pipeline has no such key in \<^verbatim>\<open>$match\<close>), and the
  pipeline is run on every collection in turn. The result is what the batch appends to the
  output file. The source stores the list in the pipeline object of the module, which
  keeps it between calls; every call of \<^verbatim>\<open>aggregate\<close> comes after such a store,
  so none sees an older list, and the model passes the pipeline by value.
\<close>

definition query_batch ::
  "document list list \<Rightarrow> aggregate_query \<Rightarrow> string \<Rightarrow> string list \<Rightarrow> error + string list" where
  "query_batch collection_handles aggregate_query_to_use rs_id_attribute_path lines =
     (case all_or_first_error (map (\<lambda>line. py_int (strip line)) lines) of
        Inl e \<Rightarrow> Inl e
      | Inr ids \<Rightarrow>
          if rs_id_attribute_path \<noteq> id_path aggregate_query_to_use then Inl KeyError
          else map_sum id concat
                 (all_or_first_error
                    (map (\<lambda>collection_handle.
                            lines_to_write rs_id_attribute_path
                              (aggregate collection_handle
                                 (aggregate_query_to_use\<lparr>in_list := ids\<rparr>)))
                       collection_handles)))"

text \<open>\<^verbatim>\<open>get_ids_from_mongo_for_category\<close>: the content of the output file of the
  category, from the content of the file of candidate IDs.\<close>

definition get_ids_from_mongo_for_category ::
  "string list \<Rightarrow> database \<Rightarrow> aggregate_query \<Rightarrow> string \<Rightarrow> string list
     \<Rightarrow> error + string list" where
  "get_ids_from_mongo_for_category missing_ids_file' mongo_database_handle
       aggregate_query_to_use rs_id_attribute_path collections_to_query =
     (let collection_handles = map mongo_database_handle collections_to_query
      in map_sum id concat
           (all_or_first_error
              (map (query_batch collection_handles aggregate_query_to_use rs_id_attribute_path)
                 (read_next_batch_of_missing_ids missing_ids_file'))))"

definition get_rs_with_merged_ss :: "string list \<Rightarrow> database \<Rightarrow> error + string list" where
  "get_rs_with_merged_ss missing_ids_file' mongo_database_handle =
     get_ids_from_mongo_for_category missing_ids_file' mongo_database_handle
       get_merged_ss_query ''inactiveObjects.rs''
       [dbsnp_svoe_collection_name, svoe_collection_name]"

definition get_rs_with_declustered_ss :: "string list \<Rightarrow> database \<Rightarrow> error + string list" where
  "get_rs_with_declustered_ss missing_ids_file' mongo_database_handle =
     get_ids_from_mongo_for_category missing_ids_file' mongo_database_handle
       get_declustered_ss_query ''inactiveObjects.rs''
       [dbsnp_svoe_collection_name, svoe_collection_name]"

definition get_rs_with_tandem_repeat_type :: "string list \<Rightarrow> database \<Rightarrow> error + string list" where
  "get_rs_with_tandem_repeat_type missing_ids_file' mongo_database_handle =
     get_ids_from_mongo_for_category missing_ids_file' mongo_database_handle
       get_tandem_repeat_rs_query ''accession''
       [dbsnp_cve_collection_name, cve_collection_name]"

text \<open>\<^verbatim>\<open>get_rs_with_non_nucleotide_letters\<close> writes three files: the results from the
  two kinds of collection and their sorted, duplicate-free concatenation, which it
  returns.\<close>

definition get_rs_with_non_nucleotide_letters ::
  "string list \<Rightarrow> database \<Rightarrow> error + (string list \<times> string list \<times> string list)" where
  "get_rs_with_non_nucleotide_letters missing_ids_file' mongo_database_handle =
     (case get_ids_from_mongo_for_category missing_ids_file' mongo_database_handle
             get_rs_with_non_nucleotide_letters_query_SVE ''rs''
             [dbsnp_sve_collection_name, sve_collection_name] of
        Inl e \<Rightarrow> Inl e
      | Inr results_from_sve \<Rightarrow>
          (case get_ids_from_mongo_for_category missing_ids_file' mongo_database_handle
                  get_rs_with_non_nucleotide_letters_query_SVOE ''inactiveObjects.rs''
                  [dbsnp_svoe_collection_name, svoe_collection_name] of
             Inl e \<Rightarrow> Inl e
           | Inr results_from_svoe \<Rightarrow>
               Inr (results_from_sve, results_from_svoe,
                    sort_uniq (results_from_sve @ results_from_svoe))))"

subsection \<open>The residual\<close>

text \<open>
  Modelled from the spec: \<^verbatim>\<open>file_diff\<close> with \<^verbatim>\<open>FileDiffOption.NOT_IN\<close> belongs
  to the library \<^verbatim>\<open>ebi_eva_common_pyutils\<close>, whose code is not in the repository.
  The source sorts both files before the call and describes the result as the residual
  minus the attributed IDs; the spec calls the step a set subtraction. The model is the
  merge of two sorted files that keeps the lines of the first file that are not in the
  second (what \<^verbatim>\<open>comm -23\<close> prints).
\<close>

fun file_diff_NOT_IN :: "string list \<Rightarrow> string list \<Rightarrow> string list" where
  "file_diff_NOT_IN [] ys = []"
| "file_diff_NOT_IN (x # xs) [] = x # xs"
| "file_diff_NOT_IN (x # xs) (y # ys) =
     (if x = y then file_diff_NOT_IN xs ys
      else if x < y then x # file_diff_NOT_IN xs (y # ys)
      else file_diff_NOT_IN (x # xs) ys)"

text \<open>\<^verbatim>\<open>get_residual_missing_rs_ids_file\<close>: both files are sorted in place, the
  difference goes to a temporary file, which then replaces the residual file. The result
  is the new content of the residual file and of the file of attributed IDs.\<close>

definition get_residual_missing_rs_ids_file ::
  "string list \<Rightarrow> string list \<Rightarrow> string list \<times> string list" where
  "get_residual_missing_rs_ids_file rs_still_missing_file' attributed_rs_ids_file =
     (let sorted_rs_still_missing_file = sort rs_still_missing_file';
          sorted_attributed_rs_ids_file = sort attributed_rs_ids_file;
          temp_residual_file =
            file_diff_NOT_IN sorted_rs_still_missing_file sorted_attributed_rs_ids_file
      in (temp_residual_file, sorted_attributed_rs_ids_file))"

subsection \<open>The attributions\<close>

definition bind_result :: "error + 'a \<Rightarrow> ('a \<Rightarrow> error + 'b) \<Rightarrow> error + 'b" where
  "bind_result r f = (case r of Inl e \<Rightarrow> Inl e | Inr x \<Rightarrow> f x)"

text \<open>
  The four category steps of \<^verbatim>\<open>get_missing_ids_attributions\<close>. Each of the first
  three evaluates its category on the residual file and then subtracts the file it wrote
  from the residual; the fourth evaluates its category and subtracts nothing. The files
  an exception leaves behind are not part of the result.
\<close>

definition attribute_merged_ss :: "database \<Rightarrow> files \<Rightarrow> error + files" where
  "attribute_merged_ss mongo_database_handle fs =
     bind_result (get_rs_with_merged_ss (rs_still_missing_file fs) mongo_database_handle)
       (\<lambda>written.
          let (residual, attributed) =
                get_residual_missing_rs_ids_file (rs_still_missing_file fs) written
          in Inr (fs\<lparr>rs_with_merged_ss_file := attributed, rs_still_missing_file := residual\<rparr>))"

definition attribute_declustered_ss :: "database \<Rightarrow> files \<Rightarrow> error + files" where
  "attribute_declustered_ss mongo_database_handle fs =
     bind_result (get_rs_with_declustered_ss (rs_still_missing_file fs) mongo_database_handle)
       (\<lambda>written.
          let (residual, attributed) =
                get_residual_missing_rs_ids_file (rs_still_missing_file fs) written
          in Inr (fs\<lparr>rs_with_declustered_ss_file := attributed,
                     rs_still_missing_file := residual\<rparr>))"

definition attribute_tandem_repeats :: "database \<Rightarrow> files \<Rightarrow> error + files" where
  "attribute_tandem_repeats mongo_database_handle fs =
     bind_result (get_rs_with_tandem_repeat_type (rs_still_missing_file fs) mongo_database_handle)
       (\<lambda>written.
          let (residual, attributed) =
                get_residual_missing_rs_ids_file (rs_still_missing_file fs) written
          in Inr (fs\<lparr>rs_with_tandem_repeats_file := attributed,
                     rs_still_missing_file := residual\<rparr>))"

definition attribute_non_nucleotide_letters :: "database \<Rightarrow> files \<Rightarrow> error + files" where
  "attribute_non_nucleotide_letters mongo_database_handle fs =
     bind_result
       (get_rs_with_non_nucleotide_letters (rs_still_missing_file fs) mongo_database_handle)
       (\<lambda>(results_from_sve, results_from_svoe, final_result).
          Inr (fs\<lparr>results_from_sve_file := results_from_sve,
                  results_from_svoe_file := results_from_svoe,
                  rs_with_non_nucleotide_letters_file := final_result\<rparr>))"

text \<open>\<^verbatim>\<open>get_missing_ids_attributions\<close> up to the count: the residual file starts as
  a copy of the file of missing IDs, then the four steps run in their order.\<close>

definition attributions :: "database \<Rightarrow> files \<Rightarrow> error + files" where
  "attributions mongo_database_handle fs =
     bind_result
       (attribute_merged_ss mongo_database_handle
          (fs\<lparr>rs_still_missing_file := missing_ids_file fs\<rparr>))
       (\<lambda>fs1. bind_result (attribute_declustered_ss mongo_database_handle fs1)
          (\<lambda>fs2. bind_result (attribute_tandem_repeats mongo_database_handle fs2)
             (\<lambda>fs3. attribute_non_nucleotide_letters mongo_database_handle fs3)))"

text \<open>\<^verbatim>\<open>get_missing_ids_attributions\<close>: after the steps, the lines of the file of
  missing IDs are counted (\<^verbatim>\<open>wc -l\<close>), and a positive count raises.\<close>

definition get_missing_ids_attributions :: "database \<Rightarrow> files \<Rightarrow> error + files" where
  "get_missing_ids_attributions mongo_database_handle fs =
     bind_result (attributions mongo_database_handle fs)
       (\<lambda>fs'.
          let num_unattributed_missing_rs_ids = length (missing_ids_file fs')
          in if num_unattributed_missing_rs_ids > 0
             then Inl (Exception_still_missing num_unattributed_missing_rs_ids)
             else Inr fs')"

subsection \<open>The process\<close>

text \<open>How the Python process ends: \<^verbatim>\<open>sys.exit(code)\<close>, or an exception nobody
  catches, which prints a traceback. The shell sees the code modulo 256 in the first
  case and 1 in the second.\<close>

datatype process_end = SystemExit int | Traceback error

fun exit_status :: "process_end \<Rightarrow> nat" where
  "exit_status (SystemExit code) = nat (code mod 256)"
| "exit_status (Traceback e) = 1"

text \<open>The files as they are when the attributions start: the store's RS IDs are exported,
  the release's are collected, and their difference is written.\<close>

definition missing_ids_stage :: "database \<Rightarrow> files \<Rightarrow> files" where
  "missing_ids_stage db fs =
     (let fs1 = export_unique_rs_ids_from_mongo db fs;
          fs2 = generate_unique_rs_ids_file fs1
      in fs2\<lparr>missing_ids_file :=
               diff_release_ids_against_mongo_rs_ids
                 (unique_ids_file fs2) (mongo_unique_rs_ids_file fs2)\<rparr>)"

text \<open>
  \<^verbatim>\<open>validate_rs_release_files\<close>. \<open>opened\<close> is what
  \<^verbatim>\<open>open_mongo_port_to_tempmongo\<close> does: it raises, or it returns a process ID and
  a port. A local variable of the function is \<open>None\<close> while nothing is assigned to it:
  \<open>port_forwarding_process_id\<close> is assigned when the port is open, \<open>exit_code\<close> in
  the \<^verbatim>\<open>except\<close> clause only. The \<^verbatim>\<open>finally\<close> clause reads both, and reading
  an unassigned local variable raises \<^verbatim>\<open>UnboundLocalError\<close>.
\<close>

definition validate_rs_release_files ::
  "error + nat \<times> nat \<Rightarrow> database \<Rightarrow> files \<Rightarrow> process_end" where
  "validate_rs_release_files opened db fs =
     (let attempt =
            bind_result opened
              (\<lambda>(process_id, mongo_port). get_missing_ids_attributions db (missing_ids_stage db fs));
          port_forwarding_process_id =
            (case opened of Inl e \<Rightarrow> None | Inr (process_id, mongo_port) \<Rightarrow> Some process_id);
          exit_code = (case attempt of Inl e \<Rightarrow> Some (- 1 :: int) | Inr fs' \<Rightarrow> None)
      in case port_forwarding_process_id of
           None \<Rightarrow> Traceback UnboundLocalError
         | Some process_id \<Rightarrow>
             (case exit_code of
                None \<Rightarrow> Traceback UnboundLocalError
              | Some code \<Rightarrow> SystemExit code))"

text \<open>The report of a run that evaluated its four categories: the four category files
  and the residual file.\<close>

record report =
  merged_ss :: "string list"
  declustered_ss :: "string list"
  tandem_repeats :: "string list"
  non_nucleotide_letters :: "string list"
  residual :: "string list"

definition report_of :: "files \<Rightarrow> report" where
  "report_of fs =
     \<lparr> merged_ss = rs_with_merged_ss_file fs,
       declustered_ss = rs_with_declustered_ss_file fs,
       tandem_repeats = rs_with_tandem_repeats_file fs,
       non_nucleotide_letters = rs_with_non_nucleotide_letters_file fs,
       residual = rs_still_missing_file fs \<rparr>"

definition reconciliation_report :: "database \<Rightarrow> files \<Rightarrow> error + report" where
  "reconciliation_report db fs = map_sum id report_of (attributions db (missing_ids_stage db fs))"

subsection \<open>The categories, by name\<close>

text \<open>The four categories in the order of the run, the step of each, and the file each
  publishes. They give one statement for the four steps where the source has four
  stretches of code.\<close>

datatype category =
  Merged_ss_parents | Declustered_ss_parents | Tandem_repeat_type | Non_nucleotide_letters

fun attribute :: "category \<Rightarrow> database \<Rightarrow> files \<Rightarrow> error + files" where
  "attribute Merged_ss_parents = attribute_merged_ss"
| "attribute Declustered_ss_parents = attribute_declustered_ss"
| "attribute Tandem_repeat_type = attribute_tandem_repeats"
| "attribute Non_nucleotide_letters = attribute_non_nucleotide_letters"

fun category_file :: "category \<Rightarrow> files \<Rightarrow> string list" where
  "category_file Merged_ss_parents fs = rs_with_merged_ss_file fs"
| "category_file Declustered_ss_parents fs = rs_with_declustered_ss_file fs"
| "category_file Tandem_repeat_type fs = rs_with_tandem_repeats_file fs"
| "category_file Non_nucleotide_letters fs = rs_with_non_nucleotide_letters_file fs"

text \<open>What the evaluation of a category writes to its file, before any sorting.\<close>

fun written_by :: "category \<Rightarrow> string list \<Rightarrow> database \<Rightarrow> error + string list" where
  "written_by Merged_ss_parents residual_file db = get_rs_with_merged_ss residual_file db"
| "written_by Declustered_ss_parents residual_file db =
     get_rs_with_declustered_ss residual_file db"
| "written_by Tandem_repeat_type residual_file db =
     get_rs_with_tandem_repeat_type residual_file db"
| "written_by Non_nucleotide_letters residual_file db =
     map_sum id (\<lambda>(results_from_sve, results_from_svoe, final_result). final_result)
       (get_rs_with_non_nucleotide_letters residual_file db)"

subsection \<open>Example runs\<close>

text \<open>A working directory with every file empty.\<close>

definition no_files :: files where
  "no_files =
     \<lparr> active_rs_ids_file = [], merged_rs_ids_file = [], multimap_rs_ids_file = [],
       merged_deprecated_rs_ids_file = [], deprecated_rs_ids_file = [], all_ids_file = [],
       unique_ids_file = [], mongo_unique_rs_ids_file = [], missing_ids_file = [],
       rs_still_missing_file = [], rs_with_merged_ss_file = [],
       rs_with_declustered_ss_file = [], rs_with_tandem_repeats_file = [],
       results_from_sve_file = [], results_from_svoe_file = [],
       rs_with_non_nucleotide_letters_file = [] \<rparr>"

text \<open>A release with the RS IDs 1, 2 and 3 in its file of current IDs (the fields of a
  line are separated by tabs).\<close>

definition release_1_2_3 :: files where
  "release_1_2_3 =
     no_files\<lparr>active_rs_ids_file :=
       [''##fileformat=VCFv4.1'',
        ''chr1'' @ [CHR 0x09] @ ''10'' @ [CHR 0x09] @ ''rs1'' @ [CHR 0x09] @ ''A'' @ [CHR 0x09] @ ''T'',
        ''chr1'' @ [CHR 0x09] @ ''20'' @ [CHR 0x09] @ ''rs2'' @ [CHR 0x09] @ ''C'' @ [CHR 0x09] @ ''G'',
        ''chr1'' @ [CHR 0x09] @ ''30'' @ [CHR 0x09] @ ''rs3'' @ [CHR 0x09] @ ''G'' @ [CHR 0x09] @ ''A'']\<rparr>"

text \<open>A store whose last exported collection holds the RS IDs 1 to 5, where a submitted
  variant of RS 4 was merged and one of RS 5 was declustered.\<close>

definition store_merged_4_declustered_5 :: database where
  "store_merged_4_declustered_5 collection =
     (if collection = ''dbsnpClusteredVariantOperationEntity'' then
        [OperationEntity 1 ''MERGED'' ''merge'' [], OperationEntity 2 ''MERGED'' ''merge'' [],
         OperationEntity 3 ''MERGED'' ''merge'' [], OperationEntity 4 ''MERGED'' ''merge'' [],
         OperationEntity 5 ''MERGED'' ''merge'' []]
      else if collection = ''submittedVariantOperationEntity'' then
        [OperationEntity 7000 ''MERGED'' ''merge''
           [\<lparr>io_rs = Some 4, io_ref = ''A'', io_alt = ''T''\<rparr>],
         OperationEntity 7001 ''UPDATED'' ''Declustered: no mapping''
           [\<lparr>io_rs = Some 5, io_ref = ''C'', io_alt = ''G''\<rparr>]]
      else [])"

text \<open>A store whose last exported collection holds the RS ID 4, where a submitted variant
  of RS 4 is an insertion with an empty reference allele.\<close>

definition store_insertion_4 :: database where
  "store_insertion_4 collection =
     (if collection = ''dbsnpClusteredVariantOperationEntity'' then
        [OperationEntity 4 ''MERGED'' ''merge'' []]
      else if collection = ''submittedVariantEntity'' then
        [SubmittedVariantEntity 7002 (Some 4) [] ''G'']
      else [])"

text \<open>A store where a submitted variant of RS 4 was merged in both collections of
  operations.\<close>

definition store_merged_4_twice :: database where
  "store_merged_4_twice collection =
     (if collection = ''dbsnpSubmittedVariantOperationEntity'' then
        [OperationEntity 900 ''MERGED'' ''merge''
           [\<lparr>io_rs = Some 4, io_ref = ''A'', io_alt = ''T''\<rparr>]]
      else if collection = ''submittedVariantOperationEntity'' then
        [OperationEntity 7000 ''MERGED'' ''merge''
           [\<lparr>io_rs = Some 4, io_ref = ''A'', io_alt = ''C''\<rparr>]]
      else [])"

text \<open>A store whose last exported collection holds the RS IDs 1, 2 and 3.\<close>

definition store_1_2_3 :: database where
  "store_1_2_3 collection =
     (if collection = ''dbsnpClusteredVariantOperationEntity'' then
        [OperationEntity 1 ''MERGED'' ''merge'' [], OperationEntity 2 ''MERGED'' ''merge'' [],
         OperationEntity 3 ''MERGED'' ''merge'' []]
      else [])"

subsection \<open>Notions for the proofs\<close>

text \<open>The line written for a projected value under a path, where nothing is raised.\<close>

definition render :: "string \<Rightarrow> bson \<Rightarrow> string" where
  "render rs_id_attribute_path elem =
     (if contains ''inactiveObjects'' rs_id_attribute_path
      then (case elem of BArray (i # is) \<Rightarrow> py_str i | _ \<Rightarrow> [])
      else py_str_value elem)"

text \<open>The lines a list of IDs under \<^verbatim>\<open>$in\<close> brings from the collections.\<close>

definition result_lines :: "document list list \<Rightarrow> aggregate_query \<Rightarrow> int list \<Rightarrow> string list" where
  "result_lines collection_handles q ids =
     concat (map (\<lambda>collection_handle.
                    map (render (id_path q)) (aggregate collection_handle (q\<lparr>in_list := ids\<rparr>)))
               collection_handles)"

text \<open>The IDs of the lines of a file, or the first \<^verbatim>\<open>ValueError\<close>.\<close>

definition parse_lines :: "string list \<Rightarrow> error + int list" where
  "parse_lines lines = all_or_first_error (map (\<lambda>line. py_int (strip line)) lines)"

text \<open>The file a category publishes, from the residual file it is evaluated on: the
  first three are sorted by the subtraction, the last by its own merge.\<close>

definition published :: "category \<Rightarrow> string list \<Rightarrow> database \<Rightarrow> error + string list" where
  "published c residual_file db =
     (if c = Non_nucleotide_letters then written_by c residual_file db
      else map_sum id sort (written_by c residual_file db))"

text \<open>The report as a function of the file of missing IDs and of the store alone.\<close>

definition report_from :: "string list \<Rightarrow> database \<Rightarrow> error + report" where
  "report_from missing db =
     bind_result (published Merged_ss_parents missing db)
       (\<lambda>f1. let r1 = file_diff_NOT_IN (sort missing) f1 in
          bind_result (published Declustered_ss_parents r1 db)
            (\<lambda>f2. let r2 = file_diff_NOT_IN (sort r1) f2 in
               bind_result (published Tandem_repeat_type r2 db)
                 (\<lambda>f3. let r3 = file_diff_NOT_IN (sort r2) f3 in
                    bind_result (published Non_nucleotide_letters r3 db)
                      (\<lambda>f4. Inr \<lparr> merged_ss = f1, declustered_ss = f2, tandem_repeats = f3,
                                   non_nucleotide_letters = f4, residual = r3 \<rparr>))))"

text \<open>Two working directories with the same release files, and two stores with the same
  documents in every collection, in whatever order each holds them.\<close>

definition same_release_files :: "files \<Rightarrow> files \<Rightarrow> bool" where
  "same_release_files fs1 fs2 =
     (active_rs_ids_file fs1 = active_rs_ids_file fs2
      \<and> merged_rs_ids_file fs1 = merged_rs_ids_file fs2
      \<and> multimap_rs_ids_file fs1 = multimap_rs_ids_file fs2
      \<and> merged_deprecated_rs_ids_file fs1 = merged_deprecated_rs_ids_file fs2
      \<and> deprecated_rs_ids_file fs1 = deprecated_rs_ids_file fs2)"

definition same_documents :: "database \<Rightarrow> database \<Rightarrow> bool" where
  "same_documents db1 db2 = (\<forall>collection. set (db1 collection) = set (db2 collection))"

text \<open>The tokens the release files contribute, in the order they are appended.\<close>

definition release_tokens :: "files \<Rightarrow> string list" where
  "release_tokens fs =
     map (\<lambda>l. sed_rs (cut_f 3 l)) (grep_v_hash (active_rs_ids_file fs))
     @ map (\<lambda>l. sed_rs (cut_f 3 l)) (grep_v_hash (merged_rs_ids_file fs))
     @ map (\<lambda>l. sed_rs (cut_f 3 l)) (grep_v_hash (multimap_rs_ids_file fs))
     @ map (\<lambda>l. sed_rs (cut_f 1 l)) (merged_deprecated_rs_ids_file fs)
     @ map (\<lambda>l. sed_rs (cut_f 2 l)) (merged_deprecated_rs_ids_file fs)
     @ map sed_rs (deprecated_rs_ids_file fs)"

text \<open>The same documents as in \<open>store_merged_4_declustered_5\<close>, held in another order.\<close>

definition store_merged_4_declustered_5_reordered :: database where
  "store_merged_4_declustered_5_reordered collection =
     (if collection = ''dbsnpClusteredVariantOperationEntity'' then
        [OperationEntity 5 ''MERGED'' ''merge'' [], OperationEntity 4 ''MERGED'' ''merge'' [],
         OperationEntity 3 ''MERGED'' ''merge'' [], OperationEntity 2 ''MERGED'' ''merge'' [],
         OperationEntity 1 ''MERGED'' ''merge'' []]
      else if collection = ''submittedVariantOperationEntity'' then
        [OperationEntity 7001 ''UPDATED'' ''Declustered: no mapping''
           [\<lparr>io_rs = Some 5, io_ref = ''C'', io_alt = ''G''\<rparr>],
         OperationEntity 7000 ''MERGED'' ''merge''
           [\<lparr>io_rs = Some 4, io_ref = ''A'', io_alt = ''T''\<rparr>]]
      else [])"

text \<open>A release with the RS ID 1 and a line whose ID column reads \<open>rsXYZ\<close>, and a store
  whose last exported collection holds the RS ID 1.\<close>

definition release_1_XYZ :: files where
  "release_1_XYZ =
     no_files\<lparr>active_rs_ids_file :=
       [''##fileformat=VCFv4.1'',
        ''chr1'' @ [CHR 0x09] @ ''10'' @ [CHR 0x09] @ ''rs1'' @ [CHR 0x09] @ ''A'' @ [CHR 0x09] @ ''T'',
        ''chr1'' @ [CHR 0x09] @ ''20'' @ [CHR 0x09] @ ''rsXYZ'' @ [CHR 0x09] @ ''C'' @ [CHR 0x09] @ ''G'']\<rparr>"

definition store_1 :: database where
  "store_1 collection =
     (if collection = ''dbsnpClusteredVariantOperationEntity'' then
        [OperationEntity 1 ''MERGED'' ''merge'' []]
      else [])"

section \<open>Properties\<close>

subsection \<open>Sorted files\<close>

lemma distinct_remdups_adj_sorted: "sorted (xs :: string list) \<Longrightarrow> distinct (remdups_adj xs)"
  by (induction xs rule: remdups_adj.induct) auto

lemma sorted_sort_uniq: "sorted (sort_uniq ls)"
  by (simp add: sort_uniq_def)

lemma distinct_sort_uniq: "distinct (sort_uniq ls)"
  by (simp add: sort_uniq_def distinct_remdups_adj_sorted)

lemma set_sort_uniq: "set (sort_uniq ls) = set ls"
  by (simp add: sort_uniq_def)

subsection \<open>The difference of the two universes\<close>

text \<open>On sorted files, of which the second has no duplicates, the merge keeps the lines of
  the second file that the first file does not have.\<close>

lemma comm_31_filter:
  "sorted xs \<Longrightarrow> sorted ys \<Longrightarrow> distinct ys \<Longrightarrow> comm_31 xs ys = filter (\<lambda>y. y \<notin> set xs) ys"
proof (induction xs ys rule: comm_31.induct)
  case (1 ys)
  then show ?case by simp
next
  case (2 x xs)
  then show ?case by simp
next
  case (3 x xs y ys)
  show ?case
  proof (cases "x = y")
    case True
    with 3 have "comm_31 xs ys = filter (\<lambda>z. z \<notin> set xs) ys" by simp
    moreover have "filter (\<lambda>z. z \<notin> set (x # xs)) ys = filter (\<lambda>z. z \<notin> set xs) ys"
      using 3(6) True by (intro filter_cong) auto
    ultimately show ?thesis using True by simp
  next
    case False
    show ?thesis
    proof (cases "x < y")
      case True
      with 3 False have "comm_31 xs (y # ys) = filter (\<lambda>z. z \<notin> set xs) (y # ys)" by simp
      moreover have "filter (\<lambda>z. z \<notin> set (x # xs)) (y # ys) = filter (\<lambda>z. z \<notin> set xs) (y # ys)"
        using 3(5) True by (intro filter_cong) auto
      ultimately show ?thesis using True False by simp
    next
      case above: False
      with False have yx: "y < x" by simp
      with 3 False above have "comm_31 (x # xs) ys = filter (\<lambda>z. z \<notin> set (x # xs)) ys"
        by simp
      moreover have "y \<notin> set (x # xs)" using 3(4) yx by auto
      ultimately show ?thesis using False above by simp
    qed
  qed
qed

lemma comm_31_self: "comm_31 xs xs = []"
  by (induction xs) auto

lemma diff_as_filter:
  assumes "sorted release" and "sorted store" and "distinct store"
  shows "diff_release_ids_against_mongo_rs_ids release store
         = filter (\<lambda>l. l \<notin> set release \<and> grep_digits l) store"
  using assms
  by (simp add: diff_release_ids_against_mongo_rs_ids_def comm_31_filter conj_commute)

text \<open>
  C3, as the code has it. The first file given to the difference is the release's, the
  second the store's, and the lines written are those of the store's file that the
  release's file does not have and that are made of decimal digits: the missing IDs are
  the store universe minus the release universe. Both files are sorted and free of
  duplicates when the validation calls it.
\<close>

theorem diff_is_store_minus_release:
  assumes "sorted release" and "distinct release" and "sorted store" and "distinct store"
  shows "diff_release_ids_against_mongo_rs_ids release store
           = filter (\<lambda>l. l \<notin> set release \<and> grep_digits l) store
         \<and> set (diff_release_ids_against_mongo_rs_ids release store)
           = {l \<in> set store - set release. grep_digits l}
         \<and> ((\<forall>l \<in> set store. grep_digits l) \<longrightarrow>
              set (diff_release_ids_against_mongo_rs_ids release store)
                = set store - set release)"
  using assms by (auto simp: diff_as_filter)

text \<open>The store holds 1 to 5, the release 1 to 3: 4 and 5 are missing.\<close>

theorem diff_is_store_minus_release_witness:
  "diff_release_ids_against_mongo_rs_ids [''1'', ''2'', ''3''] [''1'', ''2'', ''3'', ''4'', ''5'']
     = [''4'', ''5'']"
proof -
  have "sorted [''1'', ''2'', ''3'']" "distinct [''1'', ''2'', ''3'']"
    "sorted [''1'', ''2'', ''3'', ''4'', ''5'']" "distinct [''1'', ''2'', ''3'', ''4'', ''5'']"
    by simp_all
  from diff_is_store_minus_release [OF this] show ?thesis by (simp add: grep_digits_def)
qed

text \<open>C3 as the spec states it fails: with the release universe 1 to 5 and the store
  universe 1 to 3, the difference is empty, not 4 and 5.\<close>

theorem diff_is_not_release_minus_store:
  "set (diff_release_ids_against_mongo_rs_ids
          [''1'', ''2'', ''3'', ''4'', ''5''] [''1'', ''2'', ''3''])
     \<noteq> set [''1'', ''2'', ''3'', ''4'', ''5''] - set [''1'', ''2'', ''3'']"
  by (simp add: diff_release_ids_against_mongo_rs_ids_def)

text \<open>
  C5, as the code has it. For files \<open>a\<close> and \<open>b\<close> of IDs with no line in common, the
  difference of \<open>b\<close> and the sorted, duplicate-free union of \<open>a\<close> and \<open>b\<close>, in this
  order of the arguments, is \<open>a\<close>; the difference of a file and itself is empty.
\<close>

theorem diff_union_and_self:
  assumes "sorted a" and "distinct a" and "sorted b" and "distinct b"
    and "set a \<inter> set b = {}" and "\<forall>l \<in> set a. grep_digits l"
  shows "diff_release_ids_against_mongo_rs_ids b (sort_uniq (a @ b)) = a
         \<and> diff_release_ids_against_mongo_rs_ids s s = []"
proof
  let ?u = "sort_uniq (a @ b)"
  let ?d = "diff_release_ids_against_mongo_rs_ids b ?u"
  have d: "?d = filter (\<lambda>l. l \<notin> set b \<and> grep_digits l) ?u"
    using assms(3) by (simp add: diff_as_filter sorted_sort_uniq distinct_sort_uniq)
  have "sorted ?d" unfolding d by (intro sorted_wrt_filter) (rule sorted_sort_uniq)
  moreover have "distinct ?d" unfolding d by (simp add: distinct_sort_uniq)
  moreover have "set ?d = set a" unfolding d using assms(5,6) by (auto simp: set_sort_uniq)
  ultimately show "?d = a" using assms(1,2) by (intro sorted_distinct_set_unique)
next
  show "diff_release_ids_against_mongo_rs_ids s s = []"
    by (simp add: diff_release_ids_against_mongo_rs_ids_def comm_31_self)
qed

theorem diff_union_and_self_witness:
  "diff_release_ids_against_mongo_rs_ids [''1''] (sort_uniq ([''4''] @ [''1''])) = [''4'']
   \<and> diff_release_ids_against_mongo_rs_ids [''1'', ''4''] [''1'', ''4''] = []"
proof -
  have "sorted [''4'']" "distinct [''4'']" "sorted [''1'']" "distinct [''1'']"
    "set [''4''] \<inter> set [''1''] = {}" "\<forall>l \<in> set [''4'']. grep_digits l"
    by (simp_all add: grep_digits_def)
  from diff_union_and_self [OF this, of "[''1'', ''4'']"] show ?thesis by simp
qed

text \<open>C5 as the spec states it fails: with \<open>a\<close> the file of 4 and \<open>b\<close> the file of 1,
  the difference of their union and \<open>b\<close> is empty, not \<open>a\<close>.\<close>

theorem diff_union_counterexample:
  "diff_release_ids_against_mongo_rs_ids (sort_uniq ([''4''] @ [''1''])) [''1''] \<noteq> [''4'']"
  by (simp add: diff_release_ids_against_mongo_rs_ids_def sort_uniq_def)


subsection \<open>The residual\<close>

lemma set_file_diff_subset: "set (file_diff_NOT_IN xs ys) \<subseteq> set xs"
  by (induction xs ys rule: file_diff_NOT_IN.induct) auto

lemma length_file_diff_le: "length (file_diff_NOT_IN xs ys) \<le> length xs"
  by (induction xs ys rule: file_diff_NOT_IN.induct) auto

text \<open>On sorted files, of which the first has no duplicates, the merge keeps the lines of
  the first file that the second does not have.\<close>

lemma file_diff_filter:
  "sorted xs \<Longrightarrow> distinct xs \<Longrightarrow> sorted ys \<Longrightarrow>
     file_diff_NOT_IN xs ys = filter (\<lambda>x. x \<notin> set ys) xs"
proof (induction xs ys rule: file_diff_NOT_IN.induct)
  case (1 ys)
  then show ?case by simp
next
  case (2 x xs)
  then show ?case by simp
next
  case (3 x xs y ys)
  show ?case
  proof (cases "x = y")
    case True
    with 3 have "file_diff_NOT_IN xs ys = filter (\<lambda>z. z \<notin> set ys) xs" by simp
    moreover have "filter (\<lambda>z. z \<notin> set (y # ys)) xs = filter (\<lambda>z. z \<notin> set ys) xs"
      using 3(5) True by (intro filter_cong) auto
    ultimately show ?thesis using True by simp
  next
    case False
    show ?thesis
    proof (cases "x < y")
      case True
      with 3 False
      have "file_diff_NOT_IN xs (y # ys) = filter (\<lambda>z. z \<notin> set (y # ys)) xs" by simp
      moreover have "x \<notin> set (y # ys)" using 3(6) True by auto
      ultimately show ?thesis using True False by simp
    next
      case above: False
      with False have yx: "y < x" by simp
      with 3 False above
      have "file_diff_NOT_IN (x # xs) ys = filter (\<lambda>z. z \<notin> set ys) (x # xs)" by simp
      moreover
      have "filter (\<lambda>z. z \<notin> set (y # ys)) (x # xs) = filter (\<lambda>z. z \<notin> set ys) (x # xs)"
        using 3(4) yx by (intro filter_cong) auto
      ultimately show ?thesis using False above by simp
    qed
  qed
qed

text \<open>Each step, written out: what it stores from what the category wrote.\<close>

lemma attribute_merged_ss_eq:
  "attribute_merged_ss db fs =
     map_sum id
       (\<lambda>w. fs\<lparr>rs_with_merged_ss_file := sort w,
                rs_still_missing_file :=
                  file_diff_NOT_IN (sort (rs_still_missing_file fs)) (sort w)\<rparr>)
       (get_rs_with_merged_ss (rs_still_missing_file fs) db)"
  by (simp add: attribute_merged_ss_def bind_result_def get_residual_missing_rs_ids_file_def
      Let_def split: sum.splits)

lemma attribute_declustered_ss_eq:
  "attribute_declustered_ss db fs =
     map_sum id
       (\<lambda>w. fs\<lparr>rs_with_declustered_ss_file := sort w,
                rs_still_missing_file :=
                  file_diff_NOT_IN (sort (rs_still_missing_file fs)) (sort w)\<rparr>)
       (get_rs_with_declustered_ss (rs_still_missing_file fs) db)"
  by (simp add: attribute_declustered_ss_def bind_result_def
      get_residual_missing_rs_ids_file_def Let_def split: sum.splits)

lemma attribute_tandem_repeats_eq:
  "attribute_tandem_repeats db fs =
     map_sum id
       (\<lambda>w. fs\<lparr>rs_with_tandem_repeats_file := sort w,
                rs_still_missing_file :=
                  file_diff_NOT_IN (sort (rs_still_missing_file fs)) (sort w)\<rparr>)
       (get_rs_with_tandem_repeat_type (rs_still_missing_file fs) db)"
  by (simp add: attribute_tandem_repeats_def bind_result_def
      get_residual_missing_rs_ids_file_def Let_def split: sum.splits)

lemma attribute_non_nucleotide_letters_eq:
  "attribute_non_nucleotide_letters db fs =
     map_sum id
       (\<lambda>(sve, svoe, final).
          fs\<lparr>results_from_sve_file := sve, results_from_svoe_file := svoe,
             rs_with_non_nucleotide_letters_file := final\<rparr>)
       (get_rs_with_non_nucleotide_letters (rs_still_missing_file fs) db)"
  by (simp add: attribute_non_nucleotide_letters_def bind_result_def split: sum.splits)

lemmas attribute_eqs =
  attribute_merged_ss_eq attribute_declustered_ss_eq attribute_tandem_repeats_eq
  attribute_non_nucleotide_letters_eq

lemma attribute_residual:
  assumes "attribute c db fs = Inr fs'"
  shows "rs_still_missing_file fs' =
           (if c = Non_nucleotide_letters then rs_still_missing_file fs
            else file_diff_NOT_IN (sort (rs_still_missing_file fs)) (category_file c fs'))"
  using assms
  by (cases c) (auto simp: attribute_eqs map_sum_def split: sum.splits)

lemma attribute_category_file:
  assumes "attribute c db fs = Inr fs'" and "c \<noteq> Non_nucleotide_letters"
  shows "\<exists>w. written_by c (rs_still_missing_file fs) db = Inr w \<and> category_file c fs' = sort w"
  using assms
  by (cases c) (auto simp: attribute_eqs map_sum_def split: sum.splits)

text \<open>
  C7. Whatever the category, its step leaves a residual file whose lines are lines of the
  residual file before it, and no more of them. When the residual file has no duplicate
  line (as the file of missing IDs has), the lines left are exactly those that are not in
  the file the category published; the last category subtracts nothing.
\<close>

theorem residual_only_shrinks:
  assumes "attribute c db fs = Inr fs'"
  shows "set (rs_still_missing_file fs') \<subseteq> set (rs_still_missing_file fs)
       \<and> length (rs_still_missing_file fs') \<le> length (rs_still_missing_file fs)
       \<and> (distinct (rs_still_missing_file fs) \<longrightarrow>
            distinct (rs_still_missing_file fs')
            \<and> set (rs_still_missing_file fs') =
                set (rs_still_missing_file fs)
                - (if c = Non_nucleotide_letters then {} else set (category_file c fs')))"
proof (cases "c = Non_nucleotide_letters")
  case True
  with attribute_residual [OF assms] show ?thesis by simp
next
  case False
  from attribute_category_file [OF assms False] obtain w where
    w: "category_file c fs' = sort w" by blast
  have r: "rs_still_missing_file fs' =
      file_diff_NOT_IN (sort (rs_still_missing_file fs)) (sort w)"
    using attribute_residual [OF assms] False w by simp
  have "set (rs_still_missing_file fs') \<subseteq> set (rs_still_missing_file fs)"
    unfolding r using set_file_diff_subset [of "sort (rs_still_missing_file fs)" "sort w"]
    by simp
  moreover have "length (rs_still_missing_file fs') \<le> length (rs_still_missing_file fs)"
    unfolding r using length_file_diff_le [of "sort (rs_still_missing_file fs)" "sort w"]
    by simp
  moreover have "distinct (rs_still_missing_file fs) \<longrightarrow>
            distinct (rs_still_missing_file fs')
            \<and> set (rs_still_missing_file fs') =
                set (rs_still_missing_file fs) - set (category_file c fs')"
    unfolding r w by (auto simp: file_diff_filter)
  ultimately show ?thesis using False by simp
qed

text \<open>The residual holds 5 and 4, and RS 4 has a merged submitted variant: 5 is left.\<close>

theorem residual_only_shrinks_witness:
  "attribute Merged_ss_parents store_merged_4_declustered_5
     (no_files\<lparr>rs_still_missing_file := [''5'', ''4'']\<rparr>)
     = Inr (no_files\<lparr>rs_with_merged_ss_file := [''4''], rs_still_missing_file := [''5'']\<rparr>)
   \<and> set [''5''] = set [''5'', ''4''] - set [''4'']"
proof -
  have step: "attribute Merged_ss_parents store_merged_4_declustered_5
     (no_files\<lparr>rs_still_missing_file := [''5'', ''4'']\<rparr>)
     = Inr (no_files\<lparr>rs_with_merged_ss_file := [''4''], rs_still_missing_file := [''5'']\<rparr>)"
    by code_simp
  from residual_only_shrinks [OF step] show ?thesis using step by simp
qed

text \<open>
  C10. The subtraction sorts the file of attributed IDs in place and takes the difference
  of the two sorted files. So after the step of a category that subtracts, the file the
  category published is sorted and holds the lines the category wrote, each as often as
  written, and the residual is the difference of the sorted residual and this file.
\<close>

theorem subtraction_sorts_the_category_file:
  assumes "c \<noteq> Non_nucleotide_letters" and "attribute c db fs = Inr fs'"
  shows "get_residual_missing_rs_ids_file residual_file attributed_file
           = (file_diff_NOT_IN (sort residual_file) (sort attributed_file),
              sort attributed_file)
       \<and> (\<exists>w. written_by c (rs_still_missing_file fs) db = Inr w
              \<and> category_file c fs' = sort w
              \<and> mset (category_file c fs') = mset w)
       \<and> sorted (category_file c fs')
       \<and> rs_still_missing_file fs'
           = file_diff_NOT_IN (sort (rs_still_missing_file fs)) (category_file c fs')"
proof -
  from attribute_category_file [OF assms(2,1)] obtain w where
    w: "written_by c (rs_still_missing_file fs) db = Inr w" "category_file c fs' = sort w"
    by blast
  then have "\<exists>w. written_by c (rs_still_missing_file fs) db = Inr w
              \<and> category_file c fs' = sort w \<and> mset (category_file c fs') = mset w"
    by simp
  moreover have "sorted (category_file c fs')" using w by simp
  moreover have "rs_still_missing_file fs'
           = file_diff_NOT_IN (sort (rs_still_missing_file fs)) (category_file c fs')"
    using attribute_residual [OF assms(2)] assms(1) by simp
  ultimately show ?thesis
    by (simp add: get_residual_missing_rs_ids_file_def Let_def)
qed

text \<open>RS 4 is merged in both collections of operations and RS 20 is not: the category
  writes 4 twice, and its file is left sorted with both lines.\<close>

theorem subtraction_sorts_the_category_file_witness:
  "attribute Merged_ss_parents store_merged_4_twice
     (no_files\<lparr>rs_still_missing_file := [''4'', ''20'']\<rparr>)
     = Inr (no_files\<lparr>rs_with_merged_ss_file := [''4'', ''4''],
                     rs_still_missing_file := [''20'']\<rparr>)
   \<and> sorted [''4'', ''4'']
   \<and> [''20''] = file_diff_NOT_IN (sort [''4'', ''20'']) [''4'', ''4'']"
proof -
  have c: "Merged_ss_parents \<noteq> Non_nucleotide_letters" by simp
  have step: "attribute Merged_ss_parents store_merged_4_twice
     (no_files\<lparr>rs_still_missing_file := [''4'', ''20'']\<rparr>)
     = Inr (no_files\<lparr>rs_with_merged_ss_file := [''4'', ''4''],
                     rs_still_missing_file := [''20'']\<rparr>)"
    by code_simp
  from subtraction_sorts_the_category_file [OF c step] show ?thesis using step by simp
qed


subsection \<open>The count and the exit status\<close>

lemma report_merged_4_declustered_5:
  "reconciliation_report store_merged_4_declustered_5 release_1_2_3
     = Inr \<lparr> merged_ss = [''4''], declustered_ss = [''5''], tandem_repeats = [],
             non_nucleotide_letters = [], residual = [] \<rparr>"
  by code_simp

lemma raise_merged_4_declustered_5:
  "get_missing_ids_attributions store_merged_4_declustered_5
       (missing_ids_stage store_merged_4_declustered_5 release_1_2_3)
     = Inl (Exception_still_missing 2)"
  by code_simp

text \<open>
  C2, at the run where the store has the RS IDs 4 and 5 that the release lacks, 4 with a
  merged and 5 with a declustered submitted variant. The categories explain both and the
  residual file ends empty, yet the count is taken of the file of missing IDs, which
  still holds both lines, and the exception is raised with the count 2.
\<close>

theorem count_is_of_the_missing_ids_file:
  "reconciliation_report store_merged_4_declustered_5 release_1_2_3
     = Inr \<lparr> merged_ss = [''4''], declustered_ss = [''5''], tandem_repeats = [],
             non_nucleotide_letters = [], residual = [] \<rparr>
   \<and> get_missing_ids_attributions store_merged_4_declustered_5
       (missing_ids_stage store_merged_4_declustered_5 release_1_2_3)
     = Inl (Exception_still_missing 2)"
  using report_merged_4_declustered_5 raise_merged_4_declustered_5 by (rule conjI)

lemma missing_insertion_4:
  "missing_ids_file (missing_ids_stage store_insertion_4 no_files) = [''4'']"
  by code_simp

lemma report_insertion_4:
  "reconciliation_report store_insertion_4 no_files
     = Inr \<lparr> merged_ss = [], declustered_ss = [], tandem_repeats = [],
             non_nucleotide_letters = [''4''], residual = [''4''] \<rparr>"
  by code_simp

text \<open>
  C8, at the run where the store has the RS ID 4 that the release lacks, and a submitted
  variant of RS 4 has an empty reference allele. The last category publishes 4 and
  nothing subtracts it: 4 is both in the category's file and in the residual file, one
  missing ID counted twice.
\<close>

theorem last_category_is_not_subtracted:
  "missing_ids_file (missing_ids_stage store_insertion_4 no_files) = [''4'']
   \<and> reconciliation_report store_insertion_4 no_files
     = Inr \<lparr> merged_ss = [], declustered_ss = [], tandem_repeats = [],
             non_nucleotide_letters = [''4''], residual = [''4''] \<rparr>"
  using missing_insertion_4 report_insertion_4 by (rule conjI)

text \<open>With the port open, the process ends by what the attributions did: an exception
  gives \<^verbatim>\<open>sys.exit(-1)\<close>, no exception leaves \<open>exit_code\<close> unassigned.\<close>

lemma validate_rs_release_files_opened:
  "validate_rs_release_files (Inr (process_id, mongo_port)) db fs =
     (if isl (get_missing_ids_attributions db (missing_ids_stage db fs))
      then SystemExit (- 1) else Traceback UnboundLocalError)"
  by (cases "get_missing_ids_attributions db (missing_ids_stage db fs)")
     (simp_all add: validate_rs_release_files_def bind_result_def)

lemma validate_rs_release_files_not_opened:
  "validate_rs_release_files (Inl e) db fs = Traceback UnboundLocalError"
  by (simp add: validate_rs_release_files_def bind_result_def)

lemma missing_1_2_3: "missing_ids_file (missing_ids_stage store_1_2_3 release_1_2_3) = []"
  by code_simp

lemma no_exception_1_2_3:
  "\<not> isl (get_missing_ids_attributions store_1_2_3 (missing_ids_stage store_1_2_3 release_1_2_3))"
  by code_simp

text \<open>
  C1, at the run where release and store both hold the RS IDs 1, 2 and 3, so that nothing
  is missing. No exception is raised, \<open>exit_code\<close> is never assigned, and the
  \<^verbatim>\<open>finally\<close> clause fails when it reads it: the process ends with a traceback
  and the status 1.
\<close>

theorem nothing_missing_exits_with_1:
  "missing_ids_file (missing_ids_stage store_1_2_3 release_1_2_3) = []
   \<and> validate_rs_release_files (Inr (4242, 27017)) store_1_2_3 release_1_2_3
     = Traceback UnboundLocalError
   \<and> exit_status (validate_rs_release_files (Inr (4242, 27017)) store_1_2_3 release_1_2_3) = 1"
  using missing_1_2_3 no_exception_1_2_3 by (simp add: validate_rs_release_files_opened)

text \<open>No run ends with the status 0: the only code \<^verbatim>\<open>sys.exit\<close> is given is -1.\<close>

lemma exit_status_never_0: "exit_status (validate_rs_release_files opened db fs) \<noteq> 0"
proof (cases opened)
  case (Inl e)
  then show ?thesis by (simp add: validate_rs_release_files_not_opened)
next
  case (Inr p)
  then show ?thesis by (cases p) (simp add: validate_rs_release_files_opened)
qed

subsection \<open>Batches\<close>

lemma concat_read_next_batch: "concat (read_next_batch_of_missing_ids ls) = ls"
proof (induction ls rule: read_next_batch_of_missing_ids.induct)
  case (1 ls)
  show ?case
  proof (cases "take num_lines_to_read ls = []")
    case True
    then have "ls = []" by (simp add: num_lines_to_read_def)
    then show ?thesis by (simp add: read_next_batch_of_missing_ids.simps [of "[]"])
  next
    case False
    with 1 show ?thesis by (simp add: read_next_batch_of_missing_ids.simps [of ls])
  qed
qed

lemma read_next_batch_bounds:
  "b \<in> set (read_next_batch_of_missing_ids ls) \<Longrightarrow> b \<noteq> [] \<and> length b \<le> 1000"
proof (induction ls rule: read_next_batch_of_missing_ids.induct)
  case (1 ls)
  show ?case
  proof (cases "take num_lines_to_read ls = []")
    case True
    with 1(2) show ?thesis by (simp add: read_next_batch_of_missing_ids.simps [of ls])
  next
    case False
    with 1(2) have "b = take num_lines_to_read ls
        \<or> b \<in> set (read_next_batch_of_missing_ids (drop num_lines_to_read ls))"
      by (simp add: read_next_batch_of_missing_ids.simps [of ls])
    then show ?thesis
    proof
      assume "b = take num_lines_to_read ls"
      with False show ?thesis by (simp add: num_lines_to_read_def)
    next
      assume "b \<in> set (read_next_batch_of_missing_ids (drop num_lines_to_read ls))"
      with 1(1) False show ?thesis by simp
    qed
  qed
qed

lemma batches_of_at_most_1000:
  "0 < n \<Longrightarrow> n \<le> 1000 \<Longrightarrow> (n + 999) div (1000::nat) = Suc 0"
  by (rule div_nat_eqI) simp_all

lemma batches_of_more_than_1000:
  assumes "\<not> n \<le> 1000"
  shows "(n + 999) div (1000::nat) = Suc ((n - 1000 + 999) div 1000)"
proof -
  from assms have "n + 999 = (n - 1000 + 999) + 1000" by simp
  then show ?thesis by (metis div_add_self2 zero_neq_numeral Suc_eq_plus1)
qed

lemma length_read_next_batch:
  "length (read_next_batch_of_missing_ids ls) = (length ls + 999) div 1000"
proof (induction ls rule: read_next_batch_of_missing_ids.induct)
  case (1 ls)
  show ?case
  proof (cases "take num_lines_to_read ls = []")
    case True
    then have "ls = []" by (simp add: num_lines_to_read_def)
    then show ?thesis by (simp add: read_next_batch_of_missing_ids.simps [of "[]"])
  next
    case False
    then have ne: "0 < length ls" by auto
    from False 1 have "length (read_next_batch_of_missing_ids ls)
        = Suc ((length (drop num_lines_to_read ls) + 999) div 1000)"
      by (simp add: read_next_batch_of_missing_ids.simps [of ls])
    also have "\<dots> = (length ls + 999) div 1000"
    proof (cases "length ls \<le> 1000")
      case True
      with ne show ?thesis by (simp add: num_lines_to_read_def batches_of_at_most_1000)
    next
      case False
      then show ?thesis by (simp add: num_lines_to_read_def batches_of_more_than_1000)
    qed
    finally show ?thesis .
  qed
qed



subsection \<open>The evaluation of a category\<close>

lemma py_int_error: "py_int s = Inl e \<Longrightarrow> e = ValueError"
  by (auto simp: py_int_def Let_def split: option.splits prod.splits)

lemma all_or_first_error_append:
  "all_or_first_error (xs @ ys) =
     (case all_or_first_error xs of Inl e \<Rightarrow> Inl e
      | Inr a \<Rightarrow> (case all_or_first_error ys of Inl e \<Rightarrow> Inl e | Inr b \<Rightarrow> Inr (a @ b)))"
  by (induction xs) (auto split: sum.splits)

lemma all_or_first_error_Inr: "all_or_first_error (map (\<lambda>x. Inr (f x)) xs) = Inr (map f xs)"
  by (induction xs) auto

lemma all_or_first_error_in: "all_or_first_error rs = Inl e \<Longrightarrow> Inl e \<in> set rs"
  by (induction rs) (auto split: sum.splits)

lemma parse_lines_error: "parse_lines ls = Inl e \<Longrightarrow> e = ValueError"
  unfolding parse_lines_def by (auto dest!: all_or_first_error_in dest: py_int_error [OF sym])

lemma parse_lines_append:
  "parse_lines (xs @ ys) =
     (case parse_lines xs of Inl e \<Rightarrow> Inl e
      | Inr a \<Rightarrow> (case parse_lines ys of Inl e \<Rightarrow> Inl e | Inr b \<Rightarrow> Inr (a @ b)))"
  unfolding parse_lines_def map_append by (rule all_or_first_error_append)

lemma set_map_filter_eq:
  "set (List.map_filter f xs) = {y. \<exists>x \<in> set xs. f x = Some y}"
  by (induction xs) (auto split: option.splits)

lemma set_aggregate:
  "set (aggregate coll q) = {v. \<exists>d \<in> set coll. matches q d \<and> value_at (id_path q) d = Some v}"
  by (auto simp: aggregate_def set_map_filter_eq split: if_splits)

lemma contains_accession: "\<not> contains ''inactiveObjects'' ''accession''"
  by simp

lemma contains_rs: "\<not> contains ''inactiveObjects'' ''rs''"
  by simp

lemma aggregate_shape:
  assumes "v \<in> set (aggregate coll q)" and "contains ''inactiveObjects'' (id_path q)"
  shows "\<exists>i js. v = BArray (i # js)"
proof -
  from assms(1) obtain d where d: "matches q d" "value_at (id_path q) d = Some v"
    by (auto simp: set_aggregate)
  from d(1) have m: "in_match (in_list q) (Some v)" by (simp add: matches_def d(2))
  show ?thesis
  proof (cases d)
    case (SubmittedVariantEntity acc rs_id rf al)
    with d(2) assms(2) show ?thesis by (auto split: if_splits)
  next
    case (OperationEntity acc event_type rsn ios)
    with d(2) assms(2) obtain js where "v = BArray js" by (auto split: if_splits)
    with m show ?thesis by (cases js) (auto simp: in_match_def)
  next
    case (ClusteredVariantEntity acc tp)
    with d(2) assms(2) show ?thesis by (auto split: if_splits)
  qed
qed

lemma lines_to_write_render:
  assumes "\<And>v. v \<in> set elems \<Longrightarrow> contains ''inactiveObjects'' path \<Longrightarrow> \<exists>i js. v = BArray (i # js)"
  shows "lines_to_write path elems = Inr (map (render path) elems)"
proof (cases "contains ''inactiveObjects'' path")
  case False
  then show ?thesis by (simp add: lines_to_write_def render_def)
next
  case True
  have eq: "map (\<lambda>elem. map_sum id py_str (first_of elem)) elems
        = map (\<lambda>elem. Inr (render path elem)) elems"
  proof (rule map_cong [OF refl])
    fix v assume "v \<in> set elems"
    with assms True obtain i js where "v = BArray (i # js)" by blast
    then show "map_sum id py_str (first_of v) = Inr (render path v)"
      using True by (simp add: render_def)
  qed
  have "lines_to_write path elems
      = all_or_first_error (map (\<lambda>elem. map_sum id py_str (first_of elem)) elems)"
    using True by (simp add: lines_to_write_def)
  also have "\<dots> = all_or_first_error (map (\<lambda>elem. Inr (render path elem)) elems)"
    by (simp only: eq)
  also have "\<dots> = Inr (map (render path) elems)"
    by (rule all_or_first_error_Inr)
  finally show ?thesis .
qed

lemma lines_to_write_aggregate:
  "lines_to_write (id_path q) (aggregate coll q) = Inr (map (render (id_path q)) (aggregate coll q))"
  by (rule lines_to_write_render) (rule aggregate_shape)

lemma query_batch_eq:
  assumes "path = id_path q"
  shows "query_batch hs q path ls = map_sum id (result_lines hs q) (parse_lines ls)"
proof (cases "parse_lines ls")
  case (Inl e)
  then show ?thesis by (simp add: query_batch_def parse_lines_def)
next
  case (Inr ids)
  have eq: "map (\<lambda>h. lines_to_write path (aggregate h (q\<lparr>in_list := ids\<rparr>))) hs
      = map (\<lambda>h. Inr (map (render (id_path q)) (aggregate h (q\<lparr>in_list := ids\<rparr>)))) hs"
    using lines_to_write_aggregate [of "q\<lparr>in_list := ids\<rparr>"] assms by simp
  have "query_batch hs q path ls
      = map_sum id concat
          (all_or_first_error
             (map (\<lambda>h. lines_to_write path (aggregate h (q\<lparr>in_list := ids\<rparr>))) hs))"
    using Inr assms by (simp add: query_batch_def parse_lines_def [symmetric])
  also have "\<dots> = map_sum id concat
          (all_or_first_error
             (map (\<lambda>h. Inr (map (render (id_path q)) (aggregate h (q\<lparr>in_list := ids\<rparr>)))) hs))"
    by (simp only: eq)
  also have "\<dots> = Inr (result_lines hs q ids)"
    by (simp add: all_or_first_error_Inr result_lines_def)
  finally show ?thesis using Inr by simp
qed

lemma in_match_append: "in_match (a @ b) v = (in_match a v \<or> in_match b v)"
  by (auto simp: in_match_def list_ex_iff split: option.splits bson.splits)

lemma in_match_Nil: "\<not> in_match [] v"
  by (auto simp: in_match_def list_ex_iff split: option.splits bson.splits)

lemma set_aggregate_append:
  "set (aggregate h (q\<lparr>in_list := a @ b\<rparr>))
     = set (aggregate h (q\<lparr>in_list := a\<rparr>)) \<union> set (aggregate h (q\<lparr>in_list := b\<rparr>))"
  by (auto simp: set_aggregate matches_def in_match_append)

lemma aggregate_Nil: "aggregate h (q\<lparr>in_list := []\<rparr>) = []"
proof -
  have "set (aggregate h (q\<lparr>in_list := []\<rparr>)) = {}"
    by (auto simp: set_aggregate matches_def in_match_Nil)
  then show ?thesis by simp
qed

lemma set_result_lines_append:
  "set (result_lines hs q (a @ b)) = set (result_lines hs q a) \<union> set (result_lines hs q b)"
  by (auto simp: result_lines_def set_aggregate_append)

lemma result_lines_Nil: "result_lines hs q [] = []"
  by (simp add: result_lines_def aggregate_Nil)

lemma get_ids_set:
  assumes "path = id_path q"
  shows "map_sum id set (get_ids_from_mongo_for_category ls db q path cs)
         = map_sum id (\<lambda>ids. set (result_lines (map db cs) q ids)) (parse_lines ls)"
proof -
  let ?hs = "map db cs"
  let ?G = "\<lambda>ls. map_sum id concat
      (all_or_first_error (map (query_batch ?hs q path) (read_next_batch_of_missing_ids ls)))"
  have "map_sum id set (?G ls)
        = map_sum id (\<lambda>ids. set (result_lines ?hs q ids)) (parse_lines ls)"
  proof (induction ls rule: read_next_batch_of_missing_ids.induct)
    case (1 ls)
    show ?case
    proof (cases "take num_lines_to_read ls = []")
      case True
      then have "ls = []" by (simp add: num_lines_to_read_def)
      then show ?thesis
        by (simp add: read_next_batch_of_missing_ids.simps [of "[]"] parse_lines_def
            result_lines_Nil)
    next
      case False
      let ?t = "take num_lines_to_read ls" and ?d = "drop num_lines_to_read ls"
      have split: "parse_lines ls =
          (case parse_lines ?t of Inl e \<Rightarrow> Inl e
           | Inr a \<Rightarrow> (case parse_lines ?d of Inl e \<Rightarrow> Inl e | Inr b \<Rightarrow> Inr (a @ b)))"
        using parse_lines_append [of ?t ?d] by simp
      have batches: "read_next_batch_of_missing_ids ls = ?t # read_next_batch_of_missing_ids ?d"
        using False by (simp add: read_next_batch_of_missing_ids.simps [of ls])
      have IH: "map_sum id set (?G ?d)
          = map_sum id (\<lambda>ids. set (result_lines ?hs q ids)) (parse_lines ?d)"
        by (rule 1 [OF False])
      have qt: "query_batch ?hs q path ?t = map_sum id (result_lines ?hs q) (parse_lines ?t)"
        by (rule query_batch_eq [OF assms])
      show ?thesis
      proof (cases "parse_lines ?t")
        case (Inl e)
        then show ?thesis
          by (simp add: batches split qt)
      next
        case a: (Inr a)
        show ?thesis
        proof (cases "all_or_first_error
            (map (query_batch ?hs q path) (read_next_batch_of_missing_ids ?d))")
          case (Inl e)
          with IH have "parse_lines ?d = Inl e" by (cases "parse_lines ?d") simp_all
          with a Inl show ?thesis
            by (simp add: batches split qt)
        next
          case (Inr xs)
          with IH obtain b where b: "parse_lines ?d = Inr b"
            "set (concat xs) = set (result_lines ?hs q b)"
            by (cases "parse_lines ?d") simp_all
          with a Inr show ?thesis
            by (simp add: batches split qt set_result_lines_append)
        qed
      qed
    qed
  qed
  then show ?thesis by (simp add: get_ids_from_mongo_for_category_def Let_def)
qed

text \<open>
  C6, as the code has it. The candidate lines are read in consecutive batches of 1 to 1000
  lines that together are the file, so a file of 2500 lines gives 3 batches, each sent to
  every collection of the category. When the path given is the one the pipeline matches
  on (as in the five calls of the source), the lines the batched evaluation writes and
  the lines one single batch of all candidates would write are the same set, and both
  fail alike on a line that is not an integer. How often a line occurs in the file is
  left open here.
\<close>

theorem batched_evaluation_covers_all:
  assumes "rs_id_attribute_path = id_path q"
  shows "concat (read_next_batch_of_missing_ids ls) = ls
       \<and> (\<forall>b \<in> set (read_next_batch_of_missing_ids ls). b \<noteq> [] \<and> length b \<le> 1000)
       \<and> length (read_next_batch_of_missing_ids ls) = (length ls + 999) div 1000
       \<and> (length ls = 2500 \<longrightarrow> length (read_next_batch_of_missing_ids ls) = 3)
       \<and> map_sum id set
           (get_ids_from_mongo_for_category ls db q rs_id_attribute_path collections_to_query)
         = map_sum id set
             (query_batch (map db collections_to_query) q rs_id_attribute_path ls)"
proof -
  have "map_sum id set
           (get_ids_from_mongo_for_category ls db q rs_id_attribute_path collections_to_query)
         = map_sum id set
             (query_batch (map db collections_to_query) q rs_id_attribute_path ls)"
    by (cases "parse_lines ls") (simp_all add: get_ids_set [OF assms] query_batch_eq [OF assms])
  then show ?thesis
    using read_next_batch_bounds [of _ ls]
    by (simp add: concat_read_next_batch length_read_next_batch)
qed

text \<open>C6 as the spec states it fails: RS 4 has a merged submitted variant in both
  collections of operations, and the category's file lists 4 twice.\<close>

theorem category_file_may_repeat_an_id:
  "get_ids_from_mongo_for_category [''4''] store_merged_4_twice get_merged_ss_query
     ''inactiveObjects.rs'' [dbsnp_svoe_collection_name, svoe_collection_name]
   = Inr [''4'', ''4'']"
  by code_simp

text \<open>A file of 2500 lines is read in 3 batches; with the candidates 4 and 7, batched
  or not, the lines written are those of 4.\<close>

theorem batched_evaluation_covers_all_witness:
  "length (read_next_batch_of_missing_ids (replicate 2500 ''1'')) = 3
   \<and> map_sum id set
       (get_ids_from_mongo_for_category [''4'', ''7''] store_merged_4_twice get_merged_ss_query
          ''inactiveObjects.rs'' [dbsnp_svoe_collection_name, svoe_collection_name])
     = Inr {''4''}"
proof -
  have p: "''inactiveObjects.rs'' = id_path get_merged_ss_query"
    by (simp add: get_merged_ss_query_def)
  have q: "query_batch
       (map store_merged_4_twice [dbsnp_svoe_collection_name, svoe_collection_name])
       get_merged_ss_query ''inactiveObjects.rs'' [''4'', ''7''] = Inr [''4'', ''4'']"
    by code_simp
  from batched_evaluation_covers_all [OF p, of "replicate 2500 ''1''"] have "length (read_next_batch_of_missing_ids (replicate 2500 ''1'')) = 3"
    by simp
  moreover from batched_evaluation_covers_all [OF p, of "[''4'', ''7'']" store_merged_4_twice
      "[dbsnp_svoe_collection_name, svoe_collection_name]"] q
  have "map_sum id set
       (get_ids_from_mongo_for_category [''4'', ''7''] store_merged_4_twice get_merged_ss_query
          ''inactiveObjects.rs'' [dbsnp_svoe_collection_name, svoe_collection_name])
     = Inr {''4''}" by simp
  ultimately show ?thesis by simp
qed



subsection \<open>The report as a function of the inputs\<close>

lemma sort_uniq_cong: "set a = set b \<Longrightarrow> sort_uniq a = sort_uniq b"
  by (rule sorted_distinct_set_unique)
     (simp_all add: sorted_sort_uniq distinct_sort_uniq set_sort_uniq)

lemma sort_cong_mset: "mset (a :: string list) = mset b \<Longrightarrow> sort a = sort b"
  by (rule properties_for_sort) simp_all

lemma unique_ids_generate:
  "unique_ids_file (generate_unique_rs_ids_file fs) = sort_uniq (release_tokens fs)"
  by (simp add: generate_unique_rs_ids_file_def Let_def release_tokens_def)

lemma mongo_unique_generate:
  "mongo_unique_rs_ids_file (generate_unique_rs_ids_file fs) = mongo_unique_rs_ids_file fs"
  by (simp add: generate_unique_rs_ids_file_def Let_def)

lemma mongo_unique_export:
  "mongo_unique_rs_ids_file (export_unique_rs_ids_from_mongo db fs)
     = sort_uniq (mongoexport_accession (db ''dbsnpClusteredVariantOperationEntity''))"
  by (simp add: export_unique_rs_ids_from_mongo_def Let_def)

lemma release_tokens_export:
  "release_tokens (export_unique_rs_ids_from_mongo db fs) = release_tokens fs"
  by (simp add: export_unique_rs_ids_from_mongo_def Let_def release_tokens_def)

lemma missing_ids_stage_eq:
  "missing_ids_file (missing_ids_stage db fs)
     = diff_release_ids_against_mongo_rs_ids (sort_uniq (release_tokens fs))
         (sort_uniq (mongoexport_accession (db ''dbsnpClusteredVariantOperationEntity'')))"
  by (simp add: missing_ids_stage_def Let_def unique_ids_generate mongo_unique_generate
      mongo_unique_export release_tokens_export)

lemma report_of_attributions:
  "map_sum id report_of (attributions db fs) = report_from (missing_ids_file fs) db"
proof -
  let ?m = "missing_ids_file fs"
  let ?fs0 = "fs\<lparr>rs_still_missing_file := ?m\<rparr>"
  show ?thesis
  proof (cases "get_rs_with_merged_ss ?m db")
    case (Inl e)
    then show ?thesis
      by (simp add: attributions_def attribute_eqs report_from_def published_def bind_result_def)
  next
    case w1: (Inr w1)
    let ?r1 = "file_diff_NOT_IN (sort ?m) (sort w1)"
    let ?fs1 = "?fs0\<lparr>rs_with_merged_ss_file := sort w1, rs_still_missing_file := ?r1\<rparr>"
    have s1: "attribute_merged_ss db ?fs0 = Inr ?fs1"
      using w1 by (simp add: attribute_eqs)
    show ?thesis
    proof (cases "get_rs_with_declustered_ss ?r1 db")
      case (Inl e)
      then show ?thesis using w1
        by (simp add: attributions_def attribute_eqs report_from_def published_def
            bind_result_def)
    next
      case w2: (Inr w2)
      let ?r2 = "file_diff_NOT_IN (sort ?r1) (sort w2)"
      show ?thesis
      proof (cases "get_rs_with_tandem_repeat_type ?r2 db")
        case (Inl e)
        then show ?thesis using w1 w2
          by (simp add: attributions_def attribute_eqs report_from_def published_def
              bind_result_def)
      next
        case w3: (Inr w3)
        let ?r3 = "file_diff_NOT_IN (sort ?r2) (sort w3)"
        show ?thesis
        proof (cases "get_rs_with_non_nucleotide_letters ?r3 db")
          case (Inl e)
          then show ?thesis using w1 w2 w3
            by (simp add: attributions_def attribute_eqs report_from_def published_def
                bind_result_def)
        next
          case (Inr t)
          then show ?thesis using w1 w2 w3
            by (cases t)
               (simp add: attributions_def attribute_eqs report_from_def published_def
                bind_result_def report_of_def)
        qed
      qed
    qed
  qed
qed

lemma attributions_missing_ids_file:
  assumes "attributions db fs = Inr fs'"
  shows "missing_ids_file fs' = missing_ids_file fs"
  using assms
  by (auto simp: attributions_def attribute_eqs bind_result_def map_sum_def
      split: sum.splits)

lemma attributions_release_files:
  assumes "attributions db fs = Inr fs'"
  shows "same_release_files fs fs'"
  using assms
  by (auto simp: attributions_def attribute_eqs bind_result_def map_sum_def
      same_release_files_def split: sum.splits)

lemma missing_ids_stage_release_files: "same_release_files fs (missing_ids_stage db fs)"
  by (simp add: same_release_files_def missing_ids_stage_def Let_def
      generate_unique_rs_ids_file_def export_unique_rs_ids_from_mongo_def)

lemma isl_get_missing_ids_attributions:
  "isl (get_missing_ids_attributions db fs)
     = (isl (attributions db fs) \<or> missing_ids_file fs \<noteq> [])"
proof (cases "attributions db fs")
  case (Inl e)
  then show ?thesis by (simp add: get_missing_ids_attributions_def bind_result_def)
next
  case (Inr fs')
  with attributions_missing_ids_file [OF Inr] show ?thesis
    by (simp add: get_missing_ids_attributions_def bind_result_def Let_def)
qed

lemma mset_aggregate_cong:
  assumes "set c1 = set c2"
  shows "mset (aggregate c1 q) = mset (aggregate c2 q)"
proof -
  have "set (List.map_filter f c1) = set (List.map_filter f c2)" for f :: "document \<Rightarrow> bson option"
    using assms by (simp add: set_map_filter_eq)
  then show ?thesis
    unfolding aggregate_def by (simp add: set_eq_iff_mset_remdups_eq)
qed

lemma mset_result_lines_cong:
  assumes "same_documents db1 db2"
  shows "mset (result_lines (map db1 cs) q ids) = mset (result_lines (map db2 cs) q ids)"
proof (induction cs)
  case Nil
  show ?case by (simp add: result_lines_def)
next
  case (Cons c cs)
  from assms have "set (db1 c) = set (db2 c)" by (simp add: same_documents_def)
  then have "mset (aggregate (db1 c) (q\<lparr>in_list := ids\<rparr>))
      = mset (aggregate (db2 c) (q\<lparr>in_list := ids\<rparr>))"
    by (rule mset_aggregate_cong)
  with Cons show ?case by (simp add: result_lines_def)
qed

lemma query_batch_cong:
  assumes "same_documents db1 db2" and "path = id_path q"
  shows "map_sum id mset (query_batch (map db1 cs) q path b)
       = map_sum id mset (query_batch (map db2 cs) q path b)"
  by (cases "parse_lines b")
     (simp_all add: query_batch_eq [OF assms(2)] mset_result_lines_cong [OF assms(1)])

lemma all_or_first_error_cong:
  assumes "\<And>b. map_sum id mset (f b) = map_sum id mset (g b)"
  shows "map_sum id (\<lambda>xs. mset (concat xs)) (all_or_first_error (map f bs))
       = map_sum id (\<lambda>xs. mset (concat xs)) (all_or_first_error (map g bs))"
proof (induction bs)
  case Nil
  show ?case by simp
next
  case (Cons b bs)
  from assms [of b] consider
    (error) e where "f b = Inl e" "g b = Inl e"
    | (lines) x y where "f b = Inr x" "g b = Inr y" "mset x = mset y"
    by (cases "f b"; cases "g b") auto
  then show ?case
  proof cases
    case error
    then show ?thesis by simp
  next
    case lines
    with Cons show ?thesis
      by (cases "all_or_first_error (map f bs)"; cases "all_or_first_error (map g bs)") auto
  qed
qed

lemma get_ids_cong:
  assumes "same_documents db1 db2" and "path = id_path q"
  shows "map_sum id mset (get_ids_from_mongo_for_category ls db1 q path cs)
       = map_sum id mset (get_ids_from_mongo_for_category ls db2 q path cs)"
proof -
  have "map_sum id mset (get_ids_from_mongo_for_category ls db q path cs)
      = map_sum id (\<lambda>xs. mset (concat xs))
          (all_or_first_error
             (map (query_batch (map db cs) q path) (read_next_batch_of_missing_ids ls)))"
    for db
    by (simp add: get_ids_from_mongo_for_category_def Let_def sum.map_comp comp_def id_def)
  then show ?thesis
    using all_or_first_error_cong [of "query_batch (map db1 cs) q path"
      "query_batch (map db2 cs) q path" "read_next_batch_of_missing_ids ls",
      OF query_batch_cong [OF assms]]
    by simp
qed

lemma sort_of_mset_cong:
  assumes "map_sum id mset a = map_sum id mset (b :: error + string list)"
  shows "map_sum id sort a = map_sum id sort b"
  using assms by (cases a; cases b) (auto dest: sort_cong_mset)

lemma set_of_mset_cong:
  assumes "map_sum id mset a = map_sum id mset (b :: error + string list)"
  shows "map_sum id set a = map_sum id set b"
  using assms by (cases a; cases b) (auto dest: mset_eq_setD)

lemma published_cong:
  assumes "same_documents db1 db2"
  shows "published c r db1 = published c r db2"
proof (cases c)
  case Merged_ss_parents
  then show ?thesis
    by (simp add: published_def get_rs_with_merged_ss_def
        sort_of_mset_cong [OF get_ids_cong [OF assms]] get_merged_ss_query_def)
next
  case Declustered_ss_parents
  then show ?thesis
    by (simp add: published_def get_rs_with_declustered_ss_def
        sort_of_mset_cong [OF get_ids_cong [OF assms]] get_declustered_ss_query_def)
next
  case Tandem_repeat_type
  then show ?thesis
    by (simp add: published_def get_rs_with_tandem_repeat_type_def
        sort_of_mset_cong [OF get_ids_cong [OF assms]] get_tandem_repeat_rs_query_def)
next
  case Non_nucleotide_letters
  let ?sve = "\<lambda>db. get_ids_from_mongo_for_category r db
             get_rs_with_non_nucleotide_letters_query_SVE ''rs''
             [dbsnp_sve_collection_name, sve_collection_name]"
  let ?svoe = "\<lambda>db. get_ids_from_mongo_for_category r db
                  get_rs_with_non_nucleotide_letters_query_SVOE ''inactiveObjects.rs''
                  [dbsnp_svoe_collection_name, svoe_collection_name]"
  have a: "map_sum id set (?sve db1) = map_sum id set (?sve db2)"
    by (rule set_of_mset_cong [OF get_ids_cong [OF assms]])
       (simp add: get_rs_with_non_nucleotide_letters_query_SVE_def)
  have b: "map_sum id set (?svoe db1) = map_sum id set (?svoe db2)"
    by (rule set_of_mset_cong [OF get_ids_cong [OF assms]])
       (simp add: get_rs_with_non_nucleotide_letters_query_SVOE_def)
  have "written_by Non_nucleotide_letters r db1 = written_by Non_nucleotide_letters r db2"
    using a b
    by (cases "?sve db1"; cases "?sve db2"; cases "?svoe db1"; cases "?svoe db2")
       (auto simp: get_rs_with_non_nucleotide_letters_def intro: sort_uniq_cong)
  with Non_nucleotide_letters show ?thesis by (simp add: published_def)
qed

lemma report_from_cong:
  assumes "same_documents db1 db2"
  shows "report_from missing db1 = report_from missing db2"
  by (simp add: report_from_def published_cong [OF assms])

lemma release_tokens_cong: "same_release_files fs1 fs2 \<Longrightarrow> release_tokens fs1 = release_tokens fs2"
  by (simp add: same_release_files_def release_tokens_def)

lemma missing_ids_stage_cong:
  assumes "same_release_files fs1 fs2" and "same_documents db1 db2"
  shows "missing_ids_file (missing_ids_stage db1 fs1) = missing_ids_file (missing_ids_stage db2 fs2)"
proof -
  from assms(2) have "set (mongoexport_accession (db1 c)) = set (mongoexport_accession (db2 c))"
    for c by (simp add: mongoexport_accession_def same_documents_def)
  then have "sort_uniq (mongoexport_accession (db1 c)) = sort_uniq (mongoexport_accession (db2 c))"
    for c by (rule sort_uniq_cong)
  then show ?thesis
    by (simp add: missing_ids_stage_eq release_tokens_cong [OF assms(1)])
qed

lemma reconciliation_report_eq:
  "reconciliation_report db fs = report_from (missing_ids_file (missing_ids_stage db fs)) db"
  by (simp add: reconciliation_report_def report_of_attributions)

lemma reconciliation_report_cong:
  assumes "same_release_files fs1 fs2" and "same_documents db1 db2"
  shows "reconciliation_report db1 fs1 = reconciliation_report db2 fs2"
  by (simp add: reconciliation_report_eq missing_ids_stage_cong [OF assms]
      report_from_cong [OF assms(2)])

lemma isl_attributions: "isl (attributions db fs) = isl (report_from (missing_ids_file fs) db)"
proof -
  have "isl (map_sum id report_of (attributions db fs)) = isl (attributions db fs)"
    by (cases "attributions db fs") simp_all
  then show ?thesis by (simp add: report_of_attributions)
qed

lemma validate_cong:
  assumes "same_release_files fs1 fs2" and "same_documents db1 db2"
  shows "validate_rs_release_files opened db1 fs1 = validate_rs_release_files opened db2 fs2"
proof (cases opened)
  case (Inl e)
  then show ?thesis by (simp add: validate_rs_release_files_not_opened)
next
  case (Inr p)
  then show ?thesis
    by (cases p)
       (simp add: validate_rs_release_files_opened isl_get_missing_ids_attributions
        isl_attributions missing_ids_stage_cong [OF assms] report_from_cong [OF assms(2)])
qed

lemma same_release_files_trans:
  "same_release_files a b \<Longrightarrow> same_release_files b c \<Longrightarrow> same_release_files a c"
  by (simp add: same_release_files_def)

text \<open>
  C9. Two runs on the same release files and on stores with the same documents give the
  same report (the four category files and the residual file, line by line) and end the
  process the same way, whatever the working directories held before and in whatever
  order the stores keep and return their documents. In particular a second run in the
  directory the first run left gives the report of the first.
\<close>

theorem reports_are_reproducible:
  assumes "same_release_files fs1 fs2" and "same_documents db1 db2"
  shows "reconciliation_report db1 fs1 = reconciliation_report db2 fs2
       \<and> validate_rs_release_files opened db1 fs1 = validate_rs_release_files opened db2 fs2
       \<and> (\<forall>fs'. attributions db1 (missing_ids_stage db1 fs1) = Inr fs' \<longrightarrow>
            reconciliation_report db2 fs' = reconciliation_report db1 fs1
            \<and> validate_rs_release_files opened db2 fs'
                = validate_rs_release_files opened db1 fs1)"
proof -
  have "reconciliation_report db2 fs' = reconciliation_report db1 fs1
        \<and> validate_rs_release_files opened db2 fs' = validate_rs_release_files opened db1 fs1"
    if "attributions db1 (missing_ids_stage db1 fs1) = Inr fs'" for fs'
  proof -
    have "same_release_files fs1 fs'"
      using missing_ids_stage_release_files attributions_release_files [OF that]
      by (rule same_release_files_trans)
    then show ?thesis
      using reconciliation_report_cong [OF _ assms(2), of fs1 fs']
        validate_cong [OF _ assms(2), of fs1 fs' opened] by simp
  qed
  then show ?thesis
    using reconciliation_report_cong [OF assms] validate_cong [OF assms] by blast
qed

text \<open>The run of C2's example again, on a store that holds the same documents in another
  order and in a directory where an earlier run left files: the same report.\<close>

theorem reports_are_reproducible_witness:
  "reconciliation_report store_merged_4_declustered_5_reordered
     (release_1_2_3\<lparr>rs_still_missing_file := [''9''], rs_with_tandem_repeats_file := [''8'']\<rparr>)
   = Inr \<lparr> merged_ss = [''4''], declustered_ss = [''5''], tandem_repeats = [],
           non_nucleotide_letters = [], residual = [] \<rparr>"
proof -
  have f: "same_release_files release_1_2_3
     (release_1_2_3\<lparr>rs_still_missing_file := [''9''], rs_with_tandem_repeats_file := [''8'']\<rparr>)"
    by (simp add: same_release_files_def)
  have d: "same_documents store_merged_4_declustered_5 store_merged_4_declustered_5_reordered"
    by (auto simp: same_documents_def store_merged_4_declustered_5_def
        store_merged_4_declustered_5_reordered_def)
  from reports_are_reproducible [OF f d] show ?thesis by (simp add: report_merged_4_declustered_5)
qed


subsection \<open>Lines that are not IDs\<close>

lemma diff_lines_are_digits:
  "l \<in> set (diff_release_ids_against_mongo_rs_ids a b) \<Longrightarrow> grep_digits l"
  by (simp add: diff_release_ids_against_mongo_rs_ids_def)

text \<open>
  C4, as the code has it. Building the release universe raises nothing and checks no
  token: the file of unique IDs holds the tokens cut from the release files, every
  \<open>rs\<close> removed, sorted and without duplicates, whether they are integers or not. The
  one filter is in the difference, which writes only lines of one or more decimal
  digits; nothing reports a line it leaves out.
\<close>

theorem tokens_are_not_validated:
  "unique_ids_file (generate_unique_rs_ids_file fs) = sort_uniq (release_tokens fs)
   \<and> set (unique_ids_file (generate_unique_rs_ids_file fs)) = set (release_tokens fs)
   \<and> (\<forall>l \<in> set (diff_release_ids_against_mongo_rs_ids a b). grep_digits l)"
  by (simp add: unique_ids_generate set_sort_uniq diff_lines_are_digits)

lemma tokens_1_XYZ: "sort_uniq (release_tokens release_1_XYZ) = [''1'', ''XYZ'']"
  by code_simp

text \<open>The token \<open>XYZ\<close> is in the file of unique IDs of the release.\<close>

theorem tokens_are_not_validated_witness:
  "unique_ids_file (generate_unique_rs_ids_file release_1_XYZ) = [''1'', ''XYZ'']"
  using tokens_are_not_validated [of release_1_XYZ] by (simp add: tokens_1_XYZ)

lemma unique_1_XYZ:
  "unique_ids_file (missing_ids_stage store_1 release_1_XYZ) = [''1'', ''XYZ'']"
  by code_simp

lemma missing_1_XYZ: "missing_ids_file (missing_ids_stage store_1 release_1_XYZ) = []"
  by code_simp

lemma no_exception_1_XYZ:
  "\<not> isl (get_missing_ids_attributions store_1 (missing_ids_stage store_1 release_1_XYZ))"
  by code_simp

text \<open>C4 as the spec states it fails: with the line \<open>rsXYZ\<close> among the current IDs, the
  universe is built with the token \<open>XYZ\<close> in it, the difference is taken, and the
  attributions end without an exception.\<close>

theorem malformed_line_raises_nothing:
  "unique_ids_file (missing_ids_stage store_1 release_1_XYZ) = [''1'', ''XYZ'']
   \<and> missing_ids_file (missing_ids_stage store_1 release_1_XYZ) = []
   \<and> \<not> isl (get_missing_ids_attributions store_1 (missing_ids_stage store_1 release_1_XYZ))"
  using unique_1_XYZ missing_1_XYZ no_exception_1_XYZ by simp



subsection \<open>What a run raises\<close>

lemma digit_not_space: "c \<in> set ''0123456789'' \<Longrightarrow> \<not> py_isspace c"
  by (auto simp: py_isspace_def)

lemma grep_digits_hd: "grep_digits l \<Longrightarrow> hd l \<in> set ''0123456789''"
  by (cases l) (simp_all add: grep_digits_def)

lemma grep_digits_last: "grep_digits l \<Longrightarrow> last l \<in> set ''0123456789''"
  unfolding grep_digits_def list_all_iff using last_in_set by blast

lemma strip_digits:
  assumes "grep_digits l"
  shows "strip l = l"
proof -
  from assms have ne: "l \<noteq> []" by (simp add: grep_digits_def)
  have "dropWhile py_isspace l = l"
    using digit_not_space [OF grep_digits_hd [OF assms]] by (simp add: dropWhile_eq_self_iff)
  moreover have "dropWhile py_isspace (rev l) = rev l"
    using digit_not_space [OF grep_digits_last [OF assms]] ne
    by (simp add: dropWhile_eq_self_iff hd_rev)
  ultimately show ?thesis by (simp add: strip_def)
qed

lemma split_on_absent: "d \<notin> set s \<Longrightarrow> split_on d s = [s]"
  by (induction s) auto

lemma unsigned_int_digits:
  assumes "grep_digits l"
  shows "unsigned_int l = Some (digits_value l)"
proof -
  from assms have "CHR ''_'' \<notin> set l" by (auto simp: grep_digits_def list_all_iff)
  then have "split_on CHR ''_'' l = [l]" by (rule split_on_absent)
  with assms show ?thesis by (simp add: unsigned_int_def)
qed

lemma py_int_digits:
  assumes "grep_digits l"
  shows "py_int (strip l) = Inr (int (digits_value l))"
proof -
  from assms obtain c cs where l: "l = c # cs" by (cases l) (simp_all add: grep_digits_def)
  with grep_digits_hd [OF assms] have "c \<noteq> CHR ''-''" "c \<noteq> CHR ''+''" by auto
  with l show ?thesis
    using unsigned_int_digits [OF assms] strip_digits [OF assms] by (simp add: py_int_def)
qed

lemma parse_lines_digits:
  assumes "\<forall>l \<in> set ls. grep_digits l"
  shows "parse_lines ls = Inr (map (\<lambda>l. int (digits_value l)) ls)"
proof -
  have "map (\<lambda>line. py_int (strip line)) ls = map (\<lambda>l. Inr (int (digits_value l))) ls"
    using assms by (intro map_cong [OF refl]) (simp add: py_int_digits)
  then show ?thesis
    unfolding parse_lines_def by (simp only: all_or_first_error_Inr)
qed

lemma get_ids_total:
  assumes "path = id_path q" and "\<forall>l \<in> set ls. grep_digits l"
  shows "\<not> isl (get_ids_from_mongo_for_category ls db q path cs)"
proof -
  have "isl (map_sum id set (get_ids_from_mongo_for_category ls db q path cs)) = False"
    by (simp add: get_ids_set [OF assms(1)] parse_lines_digits [OF assms(2)])
  then show ?thesis by (cases "get_ids_from_mongo_for_category ls db q path cs") simp_all
qed

lemma published_total:
  assumes "\<forall>l \<in> set r. grep_digits l"
  shows "\<exists>f. published c r db = Inr f"
proof -
  have "\<not> isl (published c r db)"
  proof (cases c)
    case Merged_ss_parents
    have "\<not> isl (get_rs_with_merged_ss r db)"
      unfolding get_rs_with_merged_ss_def
      by (rule get_ids_total [OF _ assms]) (simp add: get_merged_ss_query_def)
    with Merged_ss_parents show ?thesis
      by (cases "get_rs_with_merged_ss r db") (simp_all add: published_def)
  next
    case Declustered_ss_parents
    have "\<not> isl (get_rs_with_declustered_ss r db)"
      unfolding get_rs_with_declustered_ss_def
      by (rule get_ids_total [OF _ assms]) (simp add: get_declustered_ss_query_def)
    with Declustered_ss_parents show ?thesis
      by (cases "get_rs_with_declustered_ss r db") (simp_all add: published_def)
  next
    case Tandem_repeat_type
    have "\<not> isl (get_rs_with_tandem_repeat_type r db)"
      unfolding get_rs_with_tandem_repeat_type_def
      by (rule get_ids_total [OF _ assms]) (simp add: get_tandem_repeat_rs_query_def)
    with Tandem_repeat_type show ?thesis
      by (cases "get_rs_with_tandem_repeat_type r db") (simp_all add: published_def)
  next
    case Non_nucleotide_letters
    let ?sve = "get_ids_from_mongo_for_category r db
             get_rs_with_non_nucleotide_letters_query_SVE ''rs''
             [dbsnp_sve_collection_name, sve_collection_name]"
    let ?svoe = "get_ids_from_mongo_for_category r db
                  get_rs_with_non_nucleotide_letters_query_SVOE ''inactiveObjects.rs''
                  [dbsnp_svoe_collection_name, svoe_collection_name]"
    have "\<not> isl ?sve"
      by (rule get_ids_total [OF _ assms])
         (simp add: get_rs_with_non_nucleotide_letters_query_SVE_def)
    moreover have "\<not> isl ?svoe"
      by (rule get_ids_total [OF _ assms])
         (simp add: get_rs_with_non_nucleotide_letters_query_SVOE_def)
    ultimately show ?thesis using Non_nucleotide_letters
      by (cases ?sve; cases ?svoe)
         (simp_all add: published_def get_rs_with_non_nucleotide_letters_def)
  qed
  then show ?thesis by (cases "published c r db") simp_all
qed

lemma file_diff_digits:
  assumes "\<forall>l \<in> set r. grep_digits l"
  shows "\<forall>l \<in> set (file_diff_NOT_IN (sort r) f). grep_digits l"
  using assms set_file_diff_subset [of "sort r" f] by auto

lemma report_from_total:
  assumes "\<forall>l \<in> set missing. grep_digits l"
  shows "\<exists>rep. report_from missing db = Inr rep"
proof -
  from published_total [OF assms] obtain f1 where
    f1: "published Merged_ss_parents missing db = Inr f1" by blast
  let ?r1 = "file_diff_NOT_IN (sort missing) f1"
  have d1: "\<forall>l \<in> set ?r1. grep_digits l" by (rule file_diff_digits [OF assms])
  from published_total [OF d1] obtain f2 where
    f2: "published Declustered_ss_parents ?r1 db = Inr f2" by blast
  let ?r2 = "file_diff_NOT_IN (sort ?r1) f2"
  have d2: "\<forall>l \<in> set ?r2. grep_digits l" by (rule file_diff_digits [OF d1])
  from published_total [OF d2] obtain f3 where
    f3: "published Tandem_repeat_type ?r2 db = Inr f3" by blast
  let ?r3 = "file_diff_NOT_IN (sort ?r2) f3"
  have d3: "\<forall>l \<in> set ?r3. grep_digits l" by (rule file_diff_digits [OF d2])
  from published_total [OF d3] obtain f4 where
    f4: "published Non_nucleotide_letters ?r3 db = Inr f4" by blast
  show ?thesis by (simp add: report_from_def bind_result_def f1 f2 f3 f4)
qed

lemma missing_ids_stage_digits:
  "\<forall>l \<in> set (missing_ids_file (missing_ids_stage db fs)). grep_digits l"
  by (simp add: missing_ids_stage_eq diff_lines_are_digits)

text \<open>The attributions of a run never raise: the lines they parse are lines of digits.\<close>

lemma attributions_total: "\<exists>fs'. attributions db (missing_ids_stage db fs) = Inr fs'"
proof -
  from report_from_total [OF missing_ids_stage_digits] obtain rep where
    "report_from (missing_ids_file (missing_ids_stage db fs)) db = Inr rep" by blast
  then have "\<not> isl (attributions db (missing_ids_stage db fs))"
    by (simp add: isl_attributions)
  then show ?thesis by (cases "attributions db (missing_ids_stage db fs)") simp_all
qed

text \<open>So the exception of a run is the one of the count, raised exactly when the file of
  missing IDs is not empty, and the process ends accordingly.\<close>

lemma get_missing_ids_attributions_raises:
  "get_missing_ids_attributions db (missing_ids_stage db fs) = Inl e
   \<longleftrightarrow> missing_ids_file (missing_ids_stage db fs) \<noteq> []
       \<and> e = Exception_still_missing (length (missing_ids_file (missing_ids_stage db fs)))"
proof -
  from attributions_total obtain fs' where
    fs': "attributions db (missing_ids_stage db fs) = Inr fs'" by blast
  from attributions_missing_ids_file [OF fs'] fs' show ?thesis
    by (auto simp: get_missing_ids_attributions_def bind_result_def Let_def)
qed

lemma validate_rs_release_files_outcome:
  "validate_rs_release_files (Inr (process_id, mongo_port)) db fs =
     (if missing_ids_file (missing_ids_stage db fs) = [] then Traceback UnboundLocalError
      else SystemExit (- 1))"
proof -
  from attributions_total obtain fs' where
    "attributions db (missing_ids_stage db fs) = Inr fs'" by blast
  then show ?thesis
    by (simp add: validate_rs_release_files_opened isl_get_missing_ids_attributions)
qed

end
